theory Spec2Isabelle
  imports Main
begin

section \<open>Dates: the wall clock of the reference time zone\<close>

text \<open>
  The scheduler works on JavaScript \<open>Date\<close> values that \<open>toZonedTime\<close> has shifted so that
  their local fields read the wall clock of America/Vancouver, and it only ever reads and
  writes local fields (\<open>getDay\<close>, \<open>setHours\<close>, \<open>setMinutes\<close>, \<open>addDays\<close>) and compares
  instants (\<open>isBefore\<close>). A date is modelled as the number of milliseconds on that
  wall-clock time line, counted from 1970-01-01 00:00 (a Thursday); the gap and the overlap
  of a daylight-saving switch are not part of the model. The functions below are those of
  date-fns, written out on this representation: \<open>setHours\<close> and \<open>setMinutes\<close> replace one
  field and keep every smaller field (minutes, seconds and milliseconds, respectively
  seconds and milliseconds), and a field value out of range carries over, as
  \<open>Date.prototype.setHours\<close> and \<open>setMinutes\<close> do.
\<close>

type_synonym date = int

definition getDay :: "date \<Rightarrow> int" where
  "getDay d = (d div 86400000 + 4) mod 7"

definition setHours :: "date \<Rightarrow> int \<Rightarrow> date" where
  "setHours d h = (d div 86400000) * 86400000 + h * 3600000 + d mod 3600000"

definition setMinutes :: "date \<Rightarrow> int \<Rightarrow> date" where
  "setMinutes d m = (d div 3600000) * 3600000 + m * 60000 + d mod 60000"

definition addDays :: "date \<Rightarrow> int \<Rightarrow> date" where
  "addDays d n = d + n * 86400000"

definition isBefore :: "date \<Rightarrow> date \<Rightarrow> bool" where
  "isBefore a b = (a < b)"

text \<open>date-fns \<open>nextDay\<close>: the next date strictly after \<open>d\<close> that falls on weekday \<open>day\<close>.\<close>

definition nextDay :: "date \<Rightarrow> int \<Rightarrow> date" where
  "nextDay d day =
     (let delta = day - getDay d;
          delta' = (if delta \<le> 0 then delta + 7 else delta)
      in addDays d delta')"

definition nextSunday :: "date \<Rightarrow> date" where "nextSunday d = nextDay d 0"
definition nextMonday :: "date \<Rightarrow> date" where "nextMonday d = nextDay d 1"
definition nextTuesday :: "date \<Rightarrow> date" where "nextTuesday d = nextDay d 2"
definition nextWednesday :: "date \<Rightarrow> date" where "nextWednesday d = nextDay d 3"
definition nextThursday :: "date \<Rightarrow> date" where "nextThursday d = nextDay d 4"
definition nextSaturday :: "date \<Rightarrow> date" where "nextSaturday d = nextDay d 6"

section \<open>The release catalogue and the trigger computation (scheduler.ts)\<close>

text \<open>
  \<open>ScheduleConfig\<close>, without its \<open>description\<close> (a display string only).
\<close>

record ScheduleConfig =
  id :: string
  activity :: string
  cronExpression :: string
  cronDay :: int
  releaseHour :: int
  releaseMinute :: int
  targetDay :: "date \<Rightarrow> date"
  location :: string
  time :: string
  testOnly :: "bool option"

definition getNextTargetDate :: "ScheduleConfig \<Rightarrow> date \<Rightarrow> date" where
  "getNextTargetDate schedule now =
     (let currentDay = getDay now;
          releaseTime = setMinutes (setHours now (releaseHour schedule)) (releaseMinute schedule)
      in if currentDay = cronDay schedule \<and> isBefore releaseTime now
         then (let tomorrow = addDays now 1 in targetDay schedule tomorrow)
         else targetDay schedule now)"

definition getNextCronTrigger :: "ScheduleConfig \<Rightarrow> date \<Rightarrow> date" where
  "getNextCronTrigger schedule now =
     (let currentDay = getDay now;
          daysUntil0 = cronDay schedule - currentDay;
          daysUntil1 = (if daysUntil0 < 0 then daysUntil0 + 7 else daysUntil0);
          daysUntil =
            (if daysUntil1 = 0
             then (let triggerTime =
                         setMinutes (setHours now (releaseHour schedule))
                           (releaseMinute schedule - 2)
                   in if isBefore triggerTime now then 7 else daysUntil1)
             else daysUntil1);
          triggerDate = addDays now daysUntil
      in setMinutes (setHours triggerDate (releaseHour schedule)) (releaseMinute schedule - 2))"

definition SCHEDULES :: "ScheduleConfig list" where
  "SCHEDULES =
    [\<lparr>id = ''friday-monday-cloverdale'', activity = ''Drop In Badminton - Adult'',
      cronExpression = ''28 18 * * 5'', cronDay = 5, releaseHour = 18, releaseMinute = 30,
      targetDay = nextMonday, location = ''Cloverdale Recreation Centre'',
      time = ''6:30 am'', testOnly = None\<rparr>,
     \<lparr>id = ''saturday-tuesday-guildford'', activity = ''Drop In Badminton - Adult'',
      cronExpression = ''58 18 * * 6'', cronDay = 6, releaseHour = 19, releaseMinute = 0,
      targetDay = nextTuesday, location = ''Guildford Recreation Centre'',
      time = ''7:00 PM'', testOnly = None\<rparr>,
     \<lparr>id = ''sunday-wednesday-fraser'', activity = ''Drop In Badminton - Adult'',
      cronExpression = ''13 18 * * 0'', cronDay = 0, releaseHour = 18, releaseMinute = 15,
      targetDay = nextWednesday, location = ''Fraser Heights Recreation Centre'',
      time = ''6:15 am'', testOnly = None\<rparr>,
     \<lparr>id = ''monday-thursday-guildford'', activity = ''Drop In Badminton - Adult'',
      cronExpression = ''58 18 * * 1'', cronDay = 1, releaseHour = 19, releaseMinute = 0,
      targetDay = nextThursday, location = ''Guildford Recreation Centre'',
      time = ''7:00 am'', testOnly = None\<rparr>,
     \<lparr>id = ''wednesday-saturday-fraser'', activity = ''Drop In Badminton - Adult'',
      cronExpression = ''58 9 * * 3'', cronDay = 3, releaseHour = 10, releaseMinute = 0,
      targetDay = nextSaturday, location = ''Fraser Heights Recreation Centre'',
      time = ''10:00 am'', testOnly = None\<rparr>,
     \<lparr>id = ''thursday-sunday-fraser'', activity = ''Drop In Badminton - Adult'',
      cronExpression = ''58 9 * * 4'', cronDay = 4, releaseHour = 10, releaseMinute = 0,
      targetDay = nextSunday, location = ''Fraser Heights Recreation Centre'',
      time = ''10:00 am'', testOnly = None\<rparr>,
     \<lparr>id = ''wednesday-saturday-guildford'', activity = ''Drop In Badminton - Adult'',
      cronExpression = ''59 17 * * 3'', cronDay = 3, releaseHour = 18, releaseMinute = 0,
      targetDay = nextSaturday, location = ''Guildford Recreation Centre'',
      time = ''6:30 pm'', testOnly = None\<rparr>,
     \<lparr>id = ''wednesday-saturday-fraser-basketball'', activity = ''Drop In Basketball - Adult'',
      cronExpression = ''49 17 * * 3'', cronDay = 3, releaseHour = 17, releaseMinute = 49,
      targetDay = nextSaturday, location = ''Fraser Heights Recreation Centre'',
      time = ''03:15 pm'', testOnly = None\<rparr>]"

text \<open>
  A well-formed rule: a weekday 0..6, an hour 0..23, a minute 0..59, and a release time no
  earlier than 00:02, so that the release time less the two-minute lead stays on the
  trigger day. Every rule of the catalogue is of this kind.
\<close>

definition validRule :: "ScheduleConfig \<Rightarrow> bool" where
  "validRule s =
     (0 \<le> cronDay s \<and> cronDay s \<le> 6 \<and> 0 \<le> releaseHour s \<and> releaseHour s \<le> 23 \<and>
      0 \<le> releaseMinute s \<and> releaseMinute s \<le> 59 \<and>
      2 \<le> 60 * releaseHour s + releaseMinute s)"

text \<open>The minute of the day (0..1439) of a date, and the start of its day.\<close>

definition minuteOfDay :: "date \<Rightarrow> int" where
  "minuteOfDay d = (d mod 86400000) div 60000"

definition startOfDay :: "date \<Rightarrow> date" where
  "startOfDay d = (d div 86400000) * 86400000"

text \<open>The release instant of a rule on the day of \<open>now\<close>: that day at hour:minute:00.000.\<close>

definition releaseInstant :: "ScheduleConfig \<Rightarrow> date \<Rightarrow> date" where
  "releaseInstant s now = startOfDay now + releaseHour s * 3600000 + releaseMinute s * 60000"

text \<open>
  The number of days from \<open>now\<close> to the trigger the scheduler announces: none on the
  trigger day until its trigger minute (release time less two minutes) is over, seven once
  it is over, and the distance to the trigger weekday on any other day.
\<close>

definition daysUntilTrigger :: "ScheduleConfig \<Rightarrow> date \<Rightarrow> int" where
  "daysUntilTrigger s now =
     (if getDay now = cronDay s
      then (if 60 * releaseHour s + releaseMinute s - 2 < minuteOfDay now then 7 else 0)
      else (cronDay s - getDay now) mod 7)"

definition triggerMinute :: "ScheduleConfig \<Rightarrow> int" where
  "triggerMinute s = 60 * releaseHour s + releaseMinute s - 2"

section \<open>Strings as the booking engine reads them\<close>

text \<open>
  A string is a list of characters; the model covers the code units below 256, on which
  \<open>toLowerCase\<close> maps A..Z and the Latin-1 capitals (192..222 but the multiplication sign
  215) to the letter 32 places on, and on which the white space of \<open>\s\<close> and of \<open>trim\<close> is
  tab, line feed, vertical tab, form feed, carriage return, space and no-break space.
\<close>

definition toLowerChar :: "char \<Rightarrow> char" where
  "toLowerChar c =
     (let n = (of_char c :: nat)
      in if (65 \<le> n \<and> n \<le> 90) \<or> (192 \<le> n \<and> n \<le> 222 \<and> n \<noteq> 215)
         then char_of (n + 32) else c)"

definition toLowerCase :: "string \<Rightarrow> string" where
  "toLowerCase s = map toLowerChar s"

definition isWhitespace :: "char \<Rightarrow> bool" where
  "isWhitespace c = ((of_char c :: nat) \<in> {9, 10, 11, 12, 13, 32, 160})"

definition isDigit :: "char \<Rightarrow> bool" where
  "isDigit c = (48 \<le> (of_char c :: nat) \<and> (of_char c :: nat) \<le> 57)"

definition isUpperAZ :: "char \<Rightarrow> bool" where
  "isUpperAZ c = (65 \<le> (of_char c :: nat) \<and> (of_char c :: nat) \<le> 90)"

definition isLowerAZ :: "char \<Rightarrow> bool" where
  "isLowerAZ c = (97 \<le> (of_char c :: nat) \<and> (of_char c :: nat) \<le> 122)"

text \<open>
  \<open>s.replace(/\s+/g, " ")\<close>: every maximal run of white space becomes one space. The flag
  tells whether the character before was white space, that is, whether the run has
  already been replaced.
\<close>

fun collapseFrom :: "bool \<Rightarrow> string \<Rightarrow> string" where
  "collapseFrom inRun [] = []"
| "collapseFrom inRun (c # cs) =
     (if isWhitespace c
      then (if inRun then collapseFrom True cs else CHR '' '' # collapseFrom True cs)
      else c # collapseFrom False cs)"

definition collapseWs :: "string \<Rightarrow> string" where
  "collapseWs s = collapseFrom False s"

definition trim :: "string \<Rightarrow> string" where
  "trim s = rev (dropWhile isWhitespace (rev (dropWhile isWhitespace s)))"

text \<open>\<open>hay.startsWith(needle)\<close> and \<open>hay.includes(needle)\<close>.\<close>

fun startsWith :: "string \<Rightarrow> string \<Rightarrow> bool" where
  "startsWith hay [] = True"
| "startsWith [] (n # ns) = False"
| "startsWith (h # hs) (n # ns) = (h = n \<and> startsWith hs ns)"

fun includesStr :: "string \<Rightarrow> string \<Rightarrow> bool" where
  "includesStr [] needle = startsWith [] needle"
| "includesStr (h # hs) needle = (startsWith (h # hs) needle \<or> includesStr hs needle)"

text \<open>\<open>s.split(" ")[0]\<close>: the part of \<open>s\<close> before its first space (all of \<open>s\<close> if it has none).\<close>

definition firstWord :: "string \<Rightarrow> string" where
  "firstWord s = takeWhile (\<lambda>c. c \<noteq> CHR '' '') s"

text \<open>\<open>errors.join(", ")\<close>.\<close>

fun joinStr :: "string \<Rightarrow> string list \<Rightarrow> string" where
  "joinStr sep [] = []"
| "joinStr sep [x] = x"
| "joinStr sep (x # y # ys) = x @ sep @ joinStr sep (y # ys)"

section \<open>Types of the booking engine (types.ts)\<close>

record BookingParams =
  id :: "string option"
  enabled :: "bool option"
  activity :: string
  date :: string
  time :: string
  location :: string
  preferWaitlist :: "bool option"

text \<open>
  \<open>BookingResult\<close> without its \<open>timestamp\<close> (a reading of the clock). An optional field
  that is absent is \<open>None\<close>.
\<close>

record BookingResult =
  success :: bool
  bookingId :: "string option"
  activity :: string
  date :: string
  time :: string
  location :: string
  message :: string
  error :: "string option"
  waitlisted :: "bool option"

datatype SlotStatus = Available | Waitlist | Full | NotFound

record SlotInfo =
  status :: SlotStatus
  spotsLeft :: "int option"
  elementRef :: "string option"
  buttonRef :: "string option"

text \<open>An optional boolean read as a condition: \<open>undefined\<close> counts as false.\<close>

definition truthy :: "bool option \<Rightarrow> bool" where
  "truthy b = (b = Some True)"

section \<open>The browsing session as the booking engine sees it\<close>

text \<open>
  A call on the browser either throws an \<open>Error\<close> (\<open>Inl\<close> of its message) or returns
  (\<open>Inr\<close>). A button of a result row answers \<open>getAttribute("aria-label")\<close>,
  \<open>scrollIntoViewIfNeeded()\<close> and \<open>click()\<close>; a row answers \<open>textContent()\<close> (a text or
  \<open>null\<close>) and the two queries for its Register and its Waitlist button; the page answers
  the query for the rows of the events table. \<open>waitForTimeout\<close> and the logger are taken
  not to throw, and the waits for selectors and the screenshots are left out: their errors
  are caught on the spot and nothing read later depends on them.
\<close>

type_synonym 'a js = "string + 'a"

record button =
  getAttribute :: "string option js"
  scrollIntoViewIfNeeded :: "unit js"
  click :: "unit js"

record row =
  textContent :: "string option js"
  registerBtn :: "button option js"
  waitlistBtn :: "button option js"

record page =
  eventRows :: "row list js"

text \<open>The controls that were clicked, each with the index of its row.\<close>

datatype control = RegisterControl | WaitlistControl

type_synonym clickEvent = "nat \<times> control"

text \<open>
  What the external site and the browser do during one attempt. \<open>initialize\<close> can throw
  at the launch, at \<open>newContext\<close> or at \<open>newPage\<close>. The bodies of \<open>login\<close>,
  \<open>navigateAndFilter\<close> and \<open>completeRegistration\<close> are long sequences of page calls inside
  one \<open>try\<close> block each; the record says how each body ends: \<open>login\<close> throws or reaches one
  of its \<open>return true\<close> / \<open>return false\<close>, and the other two throw or reach \<open>return true\<close>
  (they have no other return inside the \<open>try\<close>).
\<close>

datatype initOutcome =
  InitOk | LaunchThrows string | NewContextThrows string | NewPageThrows string

record site =
  initResult :: initOutcome
  loginBody :: "bool js"
  filterBody :: "unit js"
  listing :: page
  registrationBody :: "unit js"

text \<open>
  The fields of \<open>SurreyBookingAutomation\<close> (\<open>bctx\<close> is its \<open>context\<close>; a flag is true
  when the field is not \<open>null\<close>), and with them the trace of what the object did: the
  controls clicked, the handles on which \<open>close()\<close> was called, and the number of calls of
  \<open>cleanup\<close>.
\<close>

datatype handle = PageHandle | ContextHandle | BrowserHandle

record automation =
  browser :: bool
  bctx :: bool
  page :: "page option"
  clicks :: "clickEvent list"
  closeCalls :: "handle list"
  cleanupCalls :: nat

definition newAutomation :: automation where
  "newAutomation =
     \<lparr>browser = False, bctx = False, page = None, clicks = [], closeCalls = [],
      cleanupCalls = 0\<rparr>"

section \<open>The booking engine (booking.ts)\<close>

definition initialize :: "site \<Rightarrow> automation \<Rightarrow> unit js \<times> automation" where
  "initialize s a =
     (case initResult s of
        LaunchThrows e \<Rightarrow> (Inl e, a)
      | NewContextThrows e \<Rightarrow> (Inl e, a\<lparr>browser := True\<rparr>)
      | NewPageThrows e \<Rightarrow> (Inl e, a\<lparr>browser := True, bctx := True\<rparr>)
      | InitOk \<Rightarrow> (Inr (), a\<lparr>browser := True, bctx := True, page := Some (listing s)\<rparr>))"

definition login :: "site \<Rightarrow> automation \<Rightarrow> bool js" where
  "login s a =
     (case page a of
        None \<Rightarrow> Inl ''Browser not initialized''
      | Some pg \<Rightarrow> (case loginBody s of Inl e \<Rightarrow> Inr False | Inr b \<Rightarrow> Inr b))"

definition navigateAndFilter :: "site \<Rightarrow> automation \<Rightarrow> bool js" where
  "navigateAndFilter s a =
     (case page a of
        None \<Rightarrow> Inl ''Browser not initialized''
      | Some pg \<Rightarrow> (case filterBody s of Inl e \<Rightarrow> Inr False | Inr u \<Rightarrow> Inr True))"

text \<open>The text of a row as the scan compares it: \<open>null\<close> reads as the empty string.\<close>

definition rowTextOf :: "string option \<Rightarrow> string" where
  "rowTextOf t = trim (collapseWs (toLowerCase (case t of None \<Rightarrow> [] | Some s \<Rightarrow> s)))"

text \<open>
  The loop over the rows, from row \<open>i\<close> on. \<open>Inl\<close>: a call threw. \<open>Inr (Some info, cs)\<close>: the
  loop returned \<open>info\<close> after the clicks \<open>cs\<close>. \<open>Inr (None, [])\<close>: the loop ran to its end.
\<close>

fun scanRows ::
  "string \<Rightarrow> string \<Rightarrow> string \<Rightarrow> bool \<Rightarrow> nat \<Rightarrow> row list \<Rightarrow> (SlotInfo option \<times> clickEvent list) js"
where
  "scanRows targetActivity targetTime targetLocation prefer i [] = Inr (None, [])"
| "scanRows targetActivity targetTime targetLocation prefer i (r # rs) =
     (case textContent r of
        Inl e \<Rightarrow> Inl e
      | Inr t \<Rightarrow>
          (let rowText = rowTextOf t in
           if length rowText < 30
           then scanRows targetActivity targetTime targetLocation prefer (i + 1) rs
           else
             (let matchesActivity = includesStr rowText targetActivity;
                  matchesTime = includesStr rowText targetTime;
                  matchesLocation = includesStr rowText (firstWord targetLocation)
              in if matchesActivity \<and> matchesTime \<and> matchesLocation
                 then
                   (case registerBtn r of
                      Inl e \<Rightarrow> Inl e
                    | Inr reg \<Rightarrow>
                        (case waitlistBtn r of
                           Inl e \<Rightarrow> Inl e
                         | Inr wl \<Rightarrow>
                             (case reg of
                                Some b \<Rightarrow>
                                  (case getAttribute b of
                                     Inl e \<Rightarrow> Inl e
                                   | Inr ariaLabel \<Rightarrow>
                                       (case scrollIntoViewIfNeeded b of
                                          Inl e \<Rightarrow> Inl e
                                        | Inr u \<Rightarrow>
                                            (case click b of
                                               Inl e \<Rightarrow> Inl e
                                             | Inr u' \<Rightarrow>
                                                 Inr (Some \<lparr>status = Available, spotsLeft = None,
                                                             elementRef = None,
                                                             buttonRef = Some ''register''\<rparr>,
                                                      [(i, RegisterControl)]))))
                              | None \<Rightarrow>
                                  (case wl of
                                     Some b \<Rightarrow>
                                       (case getAttribute b of
                                          Inl e \<Rightarrow> Inl e
                                        | Inr ariaLabel \<Rightarrow>
                                            if prefer
                                            then
                                              (case scrollIntoViewIfNeeded b of
                                                 Inl e \<Rightarrow> Inl e
                                               | Inr u \<Rightarrow>
                                                   (case click b of
                                                      Inl e \<Rightarrow> Inl e
                                                    | Inr u' \<Rightarrow>
                                                        Inr (Some \<lparr>status = Waitlist,
                                                                    spotsLeft = None,
                                                                    elementRef = None,
                                                                    buttonRef = Some ''waitlist''\<rparr>,
                                                             [(i, WaitlistControl)])))
                                            else
                                              Inr (Some \<lparr>status = Waitlist, spotsLeft = None,
                                                          elementRef = None, buttonRef = None\<rparr>,
                                                   []))
                                   | None \<Rightarrow>
                                       scanRows targetActivity targetTime targetLocation prefer
                                         (i + 1) rs))))
                 else scanRows targetActivity targetTime targetLocation prefer (i + 1) rs)))"

definition notFoundInfo :: SlotInfo where
  "notFoundInfo = \<lparr>status = NotFound, spotsLeft = None, elementRef = None, buttonRef = None\<rparr>"

text \<open>
  \<open>findAndSelectSlot\<close>: the guard on the page is outside the \<open>try\<close>, so it throws; every
  error inside the \<open>try\<close> is caught and answered with \<open>not-found\<close>, as is a loop that ends
  without a return. The clicks are added to the trace of the object.
\<close>

definition findAndSelectSlot :: "BookingParams \<Rightarrow> automation \<Rightarrow> SlotInfo js \<times> automation" where
  "findAndSelectSlot params a =
     (case page a of
        None \<Rightarrow> (Inl ''Browser not initialized'', a)
      | Some pg \<Rightarrow>
          (let targetTime = trim (collapseWs (toLowerCase (BookingParams.time params)));
               targetLocation = toLowerCase (BookingParams.location params);
               targetActivity = toLowerCase (BookingParams.activity params)
           in case eventRows pg of
                Inl e \<Rightarrow> (Inr notFoundInfo, a)
              | Inr rows \<Rightarrow>
                  (case scanRows targetActivity targetTime targetLocation
                          (truthy (preferWaitlist params)) 0 rows of
                     Inl e \<Rightarrow> (Inr notFoundInfo, a)
                   | Inr (Some info, cs) \<Rightarrow> (Inr info, a\<lparr>clicks := clicks a @ cs\<rparr>)
                   | Inr (None, cs) \<Rightarrow> (Inr notFoundInfo, a))))"

definition completeRegistration :: "site \<Rightarrow> automation \<Rightarrow> bool js" where
  "completeRegistration s a =
     (case page a of
        None \<Rightarrow> Inl ''Browser not initialized''
      | Some pg \<Rightarrow> (case registrationBody s of Inl e \<Rightarrow> Inr False | Inr u \<Rightarrow> Inr True))"

text \<open>
  \<open>cleanup\<close>: \<open>close()\<close> on each handle that is set, in the order page, context, browser
  (an error of \<open>close()\<close> is swallowed by its \<open>.catch\<close>), then the three fields are reset.
\<close>

definition cleanup :: "automation \<Rightarrow> automation" where
  "cleanup a =
     a\<lparr>closeCalls := closeCalls a
          @ (if page a \<noteq> None then [PageHandle] else [])
          @ (if bctx a then [ContextHandle] else [])
          @ (if browser a then [BrowserHandle] else []),
       page := None, bctx := False, browser := False,
       cleanupCalls := cleanupCalls a + 1\<rparr>"

text \<open>The result record \<open>book\<close> starts from.\<close>

definition initialResult :: "BookingParams \<Rightarrow> BookingResult" where
  "initialResult params =
     \<lparr>success = False, bookingId = None,
      activity = BookingParams.activity params, date = BookingParams.date params,
      time = BookingParams.time params, location = BookingParams.location params,
      message = [], error = None, waitlisted = None\<rparr>"

text \<open>The \<open>try\<close> block of \<open>book\<close>: the stages in order, each early \<open>return result\<close> a branch.\<close>

definition bookTry ::
  "BookingParams \<Rightarrow> site \<Rightarrow> BookingResult \<Rightarrow> automation \<Rightarrow> BookingResult js \<times> automation"
where
  "bookTry params s result a =
     (case initialize s a of
        (Inl e, a1) \<Rightarrow> (Inl e, a1)
      | (Inr u, a1) \<Rightarrow>
          (case login s a1 of
             Inl e \<Rightarrow> (Inl e, a1)
           | Inr loginSuccess \<Rightarrow>
               if \<not> loginSuccess
               then (Inr (result\<lparr>message := ''Login failed'',
                                  error := Some ''Could not login to Surrey booking system''\<rparr>), a1)
               else
                 (case navigateAndFilter s a1 of
                    Inl e \<Rightarrow> (Inl e, a1)
                  | Inr filterSuccess \<Rightarrow>
                      if \<not> filterSuccess
                      then (Inr (result\<lparr>message := ''Failed to apply filters'',
                                         error := Some ''Could not navigate to booking page or apply filters''\<rparr>),
                            a1)
                      else
                        (case findAndSelectSlot params a1 of
                           (Inl e, a2) \<Rightarrow> (Inl e, a2)
                         | (Inr slotInfo, a2) \<Rightarrow>
                             if status slotInfo = NotFound
                             then (Inr (result\<lparr>message := ''Slot not found'',
                                                error := Some (''Could not find slot for ''
                                                  @ BookingParams.activity params @ '' at ''
                                                  @ BookingParams.time params @ '' - ''
                                                  @ BookingParams.location params)\<rparr>), a2)
                             else if status slotInfo = Full \<and> \<not> truthy (preferWaitlist params)
                             then (Inr (result\<lparr>message := ''Slot is full'',
                                                error := Some ''The requested slot is full and waitlist is not enabled''\<rparr>),
                                   a2)
                             else
                               (case completeRegistration s a2 of
                                  Inl e \<Rightarrow> (Inl e, a2)
                                | Inr registrationSuccess \<Rightarrow>
                                    if registrationSuccess
                                    then (Inr (result\<lparr>success := True,
                                                       waitlisted := Some (status slotInfo = Waitlist),
                                                       message :=
                                                         (if status slotInfo = Waitlist
                                                          then ''Successfully added to waitlist''
                                                          else ''Booking completed successfully'')\<rparr>),
                                          a2)
                                    else (Inr (result\<lparr>message := ''Registration failed'',
                                                       error := Some ''Could not complete the registration process''\<rparr>),
                                          a2))))))"

text \<open>
  \<open>book\<close>: the \<open>try\<close> block, the \<open>catch\<close> that turns a thrown error into a result, and the
  \<open>finally\<close> that calls \<open>cleanup\<close>. The first component is what the caller gets: \<open>Inr\<close> a
  returned result, \<open>Inl\<close> an error that escaped.
\<close>

definition book :: "BookingParams \<Rightarrow> site \<Rightarrow> automation \<Rightarrow> BookingResult js \<times> automation" where
  "book params s a =
     (let result = initialResult params in
      case bookTry params s result a of
        (Inr r, a1) \<Rightarrow> (Inr r, cleanup a1)
      | (Inl e, a1) \<Rightarrow>
          (Inr (result\<lparr>message := ''Booking failed'', error := Some e\<rparr>), cleanup a1))"

section \<open>Validation of request fields (config.ts)\<close>

text \<open>The regular expression \<open>/^\d{2}-[A-Z][a-z]{2}-\d{4}$/\<close>.\<close>

fun isValidDateFormat :: "string \<Rightarrow> bool" where
  "isValidDateFormat [d1, d2, h1, m1, m2, m3, h2, y1, y2, y3, y4] =
     (isDigit d1 \<and> isDigit d2 \<and> h1 = CHR ''-'' \<and> isUpperAZ m1 \<and> isLowerAZ m2 \<and> isLowerAZ m3 \<and>
      h2 = CHR ''-'' \<and> isDigit y1 \<and> isDigit y2 \<and> isDigit y3 \<and> isDigit y4)"
| "isValidDateFormat s = False"

text \<open>
  The regular expression \<open>/^\d{2}:\d{2}\s*(am|pm)$/i\<close>: two digits, a colon, two digits,
  any white space, and \<open>am\<close> or \<open>pm\<close> in either letter case, up to the end of the string.
\<close>

fun isValidTimeFormat :: "string \<Rightarrow> bool" where
  "isValidTimeFormat (h1 # h2 # c # m1 # m2 # rest) =
     (isDigit h1 \<and> isDigit h2 \<and> c = CHR '':'' \<and> isDigit m1 \<and> isDigit m2 \<and>
      (let ap = toLowerCase (dropWhile isWhitespace rest) in ap = ''am'' \<or> ap = ''pm''))"
| "isValidTimeFormat s = False"

definition validateBookingParams :: "BookingParams \<Rightarrow> string list" where
  "validateBookingParams params =
     (if BookingParams.activity params = [] then [''Activity is required''] else [])
     @ (if BookingParams.date params = [] then [''Date is required'']
        else if \<not> isValidDateFormat (BookingParams.date params)
        then [''Invalid date format: '' @ BookingParams.date params
              @ ''. Expected: DD-MMM-YYYY (e.g., 31-Jan-2026)'']
        else [])
     @ (if BookingParams.time params = [] then [''Time is required'']
        else if \<not> isValidTimeFormat (BookingParams.time params)
        then [''Invalid time format: '' @ BookingParams.time params
              @ ''. Expected: HH:MM am/pm (e.g., 08:15 am)'']
        else [])
     @ (if BookingParams.location params = [] then [''Location is required''] else [])"

section \<open>The commands \<open>book\<close> and \<open>book-all\<close> (cli.ts)\<close>

text \<open>
  \<open>BookingConfig\<close> without its \<open>settings\<close> (they steer the screenshots only). A run of a
  command ends with \<open>process.exit\<close>; the record of a run holds the exit code, the results
  the command obtained, and the final state of every automation object on which it called
  \<open>book\<close>. A configuration that cannot be loaded is \<open>None\<close>: in \<open>book-all\<close> the error is
  caught and the process exits with 1; in \<open>book\<close> it escapes the action, and the process
  ends on the unhandled rejection with exit code 1.
\<close>

record BookingConfig =
  description :: string
  bookings :: "BookingParams list"

record run =
  exitCode :: int
  results :: "BookingResult list"
  attempts :: "automation list"

definition bookCommand :: "BookingParams \<Rightarrow> BookingConfig option \<Rightarrow> site \<Rightarrow> run" where
  "bookCommand params config s =
     (let errors = validateBookingParams params in
      if length errors > 0 then \<lparr>exitCode = 1, results = [], attempts = []\<rparr>
      else
        (case config of
           None \<Rightarrow> \<lparr>exitCode = 1, results = [], attempts = []\<rparr>
         | Some bookingConfig \<Rightarrow>
             (case book params s newAutomation of
                (Inr result, a) \<Rightarrow>
                  \<lparr>exitCode = (if success result then 0 else 1), results = [result],
                   attempts = [a]\<rparr>
              | (Inl e, a) \<Rightarrow> \<lparr>exitCode = 1, results = [], attempts = [a]\<rparr>)))"

text \<open>
  The loop of \<open>book-all\<close> over the enabled bookings; \<open>siteAt i\<close> is what the site does
  during the attempt for the booking at position \<open>i\<close>. The pause between two bookings is
  left out.
\<close>

fun processBookings ::
  "(nat \<Rightarrow> site) \<Rightarrow> nat \<Rightarrow> BookingParams list \<Rightarrow> BookingResult list \<times> automation list"
where
  "processBookings siteAt i [] = ([], [])"
| "processBookings siteAt i (booking # rest) =
     (let errors = validateBookingParams booking in
      if length errors > 0
      then
        (case processBookings siteAt (i + 1) rest of
           (rs, as) \<Rightarrow>
             ((initialResult booking)\<lparr>message := ''Invalid parameters'',
                                       error := Some (joinStr '', '' errors)\<rparr> # rs, as))
      else
        (case book booking (siteAt i) newAutomation of
           (Inr result, a) \<Rightarrow>
             (case processBookings siteAt (i + 1) rest of (rs, as) \<Rightarrow> (result # rs, a # as))
         | (Inl e, a) \<Rightarrow>
             (case processBookings siteAt (i + 1) rest of
                (rs, as) \<Rightarrow>
                  ((initialResult booking)\<lparr>message := ''Booking failed'', error := Some e\<rparr> # rs,
                   a # as))))"

definition enabledBookings :: "BookingConfig \<Rightarrow> BookingParams list" where
  "enabledBookings bookingConfig =
     filter (\<lambda>b. enabled b \<noteq> Some False) (bookings bookingConfig)"

definition bookAllCommand :: "BookingConfig option \<Rightarrow> (nat \<Rightarrow> site) \<Rightarrow> run" where
  "bookAllCommand config siteAt =
     (case config of
        None \<Rightarrow> \<lparr>exitCode = 1, results = [], attempts = []\<rparr>
      | Some bookingConfig \<Rightarrow>
          if length (enabledBookings bookingConfig) = 0
          then \<lparr>exitCode = 0, results = [], attempts = []\<rparr>
          else
            (case processBookings siteAt 0 (enabledBookings bookingConfig) of
               (rs, as) \<Rightarrow>
                 (let allSuccess = list_all success rs
                  in \<lparr>exitCode = (if allSuccess then 0 else 1), results = rs, attempts = as\<rparr>)))"

text \<open>
  The acquisition a request asks for, run against a site, produces an outcome with
  \<open>success\<close> true: the fields of the request are valid, and \<open>book\<close>, called on a new
  automation object, returns a result that reports success.
\<close>

definition acquired :: "site \<Rightarrow> BookingParams \<Rightarrow> bool" where
  "acquired s params =
     (validateBookingParams params = [] \<and>
      (case fst (book params s newAutomation) of Inl e \<Rightarrow> False | Inr r \<Rightarrow> success r))"

section \<open>The command \<open>run\<close> of the scheduler (scheduler.ts)\<close>

text \<open>
  \<open>executeBooking\<close> builds the request of a rule and runs one attempt: \<open>bookWithPhases\<close>
  for a rule that is not test-only, \<open>book\<close> otherwise. Two things it uses are taken as
  parameters: \<open>formatBookingDate\<close>, which is the \<open>format\<close> of date-fns with the pattern
  dd-MMM-yyyy, and \<open>bookWithPhases\<close>, a method of the automation object that is called here
  and whose result, a returned \<open>BookingResult\<close> or a thrown error, is all this function
  reads. The configuration is loaded before the \<open>try\<close>, so a configuration that cannot be
  loaded (\<open>None\<close>) makes the function throw; everything after is inside the \<open>try\<close>, whose
  \<open>catch\<close> logs the error. The function returns nothing; the model returns the result that
  it logs, \<open>None\<close> when the attempt threw.
\<close>

definition executeBooking ::
  "(date \<Rightarrow> string) \<Rightarrow> (BookingParams \<Rightarrow> int \<Rightarrow> int \<Rightarrow> BookingResult js) \<Rightarrow>
   ScheduleConfig \<Rightarrow> date \<Rightarrow> BookingConfig option \<Rightarrow> site \<Rightarrow> BookingResult option js"
where
  "executeBooking formatBookingDate bookWithPhases schedule now config s =
     (let targetDate = getNextTargetDate schedule now;
          formattedDate = formatBookingDate targetDate
      in case config of
           None \<Rightarrow> Inl ''Booking config file not found''
         | Some bookingConfig \<Rightarrow>
             (let bookingParams =
                    \<lparr>id = None, enabled = None, activity = ScheduleConfig.activity schedule,
                     date = formattedDate, time = ScheduleConfig.time schedule,
                     location = ScheduleConfig.location schedule,
                     preferWaitlist = Some False\<rparr>;
                  attempt =
                    (if \<not> truthy (testOnly schedule)
                     then bookWithPhases bookingParams (releaseHour schedule)
                            (releaseMinute schedule)
                     else fst (book bookingParams s newAutomation))
              in case attempt of
                   Inl e \<Rightarrow> Inr None
                 | Inr result \<Rightarrow> Inr (Some result)))"

text \<open>
  \<open>runNow\<close> and the \<open>run\<close> branch of the command switch: an unknown rule id ends the process
  with exit code 1; when \<open>executeBooking\<close> has returned, the process exits with 0; when it
  threw, the promise is rejected with no handler and the process ends with exit code 1.
  The value is the exit code and the result that was logged.
\<close>

definition runNow ::
  "(date \<Rightarrow> string) \<Rightarrow> (BookingParams \<Rightarrow> int \<Rightarrow> int \<Rightarrow> BookingResult js) \<Rightarrow>
   string \<Rightarrow> date \<Rightarrow> BookingConfig option \<Rightarrow> site \<Rightarrow> int \<times> BookingResult option"
where
  "runNow formatBookingDate bookWithPhases scheduleId now config s =
     (case find (\<lambda>sch. ScheduleConfig.id sch = scheduleId) SCHEDULES of
        None \<Rightarrow> (1, None)
      | Some schedule \<Rightarrow>
          (case executeBooking formatBookingDate bookWithPhases schedule now config s of
             Inl e \<Rightarrow> (1, None)
           | Inr logged \<Rightarrow> (0, logged)))"

section \<open>Predicates and scenarios used to state the claims\<close>

text \<open>
  The three tests of the scan on one row, as a predicate: the text can be read, its normal
  form has at least 30 characters and contains the target activity, the target time and
  the first word of the target location. For a request the targets are the lower-cased
  activity, the normalised time label and the lower-cased location.
\<close>

definition rowHit :: "string \<Rightarrow> string \<Rightarrow> string \<Rightarrow> row \<Rightarrow> bool" where
  "rowHit targetActivity targetTime targetLocation r =
     (case textContent r of
        Inl e \<Rightarrow> False
      | Inr t \<Rightarrow>
          30 \<le> length (rowTextOf t) \<and>
          includesStr (rowTextOf t) targetActivity \<and>
          includesStr (rowTextOf t) targetTime \<and>
          includesStr (rowTextOf t) (firstWord targetLocation))"

definition rowMatches :: "BookingParams \<Rightarrow> row \<Rightarrow> bool" where
  "rowMatches params r =
     rowHit (toLowerCase (BookingParams.activity params))
       (trim (collapseWs (toLowerCase (BookingParams.time params))))
       (toLowerCase (BookingParams.location params)) r"

text \<open>
  A row the scan passes over without a click and without an error: its text can be read,
  and it does not match, or it matches and both button queries answer that there is no
  such button.
\<close>

definition skipped :: "string \<Rightarrow> string \<Rightarrow> string \<Rightarrow> row \<Rightarrow> bool" where
  "skipped targetActivity targetTime targetLocation r =
     ((case textContent r of Inl e \<Rightarrow> False | Inr t \<Rightarrow> True) \<and>
      (\<not> rowHit targetActivity targetTime targetLocation r \<or>
       (registerBtn r = Inr None \<and> waitlistBtn r = Inr None)))"

definition passedOver :: "BookingParams \<Rightarrow> row \<Rightarrow> bool" where
  "passedOver params r =
     skipped (toLowerCase (BookingParams.activity params))
       (trim (collapseWs (toLowerCase (BookingParams.time params))))
       (toLowerCase (BookingParams.location params)) r"

text \<open>
  A click the scan may make on a row: the row matches, and the control is its Register
  button, or the waitlist is accepted, the row has no Register button and the control is
  its Waitlist button; the \<open>click()\<close> call on the button succeeded.
\<close>

definition clickOk :: "string \<Rightarrow> string \<Rightarrow> string \<Rightarrow> bool \<Rightarrow> row \<Rightarrow> control \<Rightarrow> bool" where
  "clickOk A T L pw r c =
     (rowHit A T L r \<and>
      (case c of
         RegisterControl \<Rightarrow> (\<exists>b. registerBtn r = Inr (Some b) \<and> click b = Inr ())
       | WaitlistControl \<Rightarrow> pw \<and> registerBtn r = Inr None \<and>
           (\<exists>b. waitlistBtn r = Inr (Some b) \<and> click b = Inr ())))"

text \<open>A button on which every call succeeds.\<close>

definition workingButton :: "button \<Rightarrow> bool" where
  "workingButton b =
     ((case getAttribute b of Inl e \<Rightarrow> False | Inr l \<Rightarrow> True) \<and>
      scrollIntoViewIfNeeded b = Inr () \<and> click b = Inr ())"

definition okButton :: "string \<Rightarrow> button" where
  "okButton label =
     \<lparr>getAttribute = Inr (Some label), scrollIntoViewIfNeeded = Inr (), click = Inr ()\<rparr>"

text \<open>A site on which every stage runs without an error, showing the given rows.\<close>

definition siteShowing :: "row list \<Rightarrow> site" where
  "siteShowing rows =
     \<lparr>initResult = InitOk, loginBody = Inr True, filterBody = Inr (),
      listing = \<lparr>eventRows = Inr rows\<rparr>, registrationBody = Inr ()\<rparr>"

text \<open>
  The end-to-end scenario of the specification: the basketball request with the waitlist
  not accepted, against a listing whose only row is the requested session with no spots
  left and a Waitlist button only.
\<close>

definition basketballRequest :: BookingParams where
  "basketballRequest =
     \<lparr>id = None, enabled = None, activity = ''Drop In Basketball - Adult'',
      date = ''31-Jan-2026'', time = ''08:15 am'', location = ''Guildford Recreation Centre'',
      preferWaitlist = Some False\<rparr>"

definition basketballFullRow :: row where
  "basketballFullRow =
     \<lparr>textContent =
        Inr (Some ''Drop In Basketball - Adult  Sat, Jan 31  08:15 am - 10:15 am  Guildford Recreation Centre  Full - 0 spot(s) left''),
      registerBtn = Inr None,
      waitlistBtn = Inr (Some (okButton ''Waitlist for Drop In Basketball - Adult''))\<rparr>"

text \<open>The same session with a spot left and a Register button.\<close>

definition basketballOpenRow :: row where
  "basketballOpenRow =
     \<lparr>textContent =
        Inr (Some ''Drop In Basketball - Adult  Sat, Jan 31  08:15 am - 10:15 am  Guildford Recreation Centre  3 spot(s) left''),
      registerBtn = Inr (Some (okButton ''Register for Drop In Basketball - Adult'')),
      waitlistBtn = Inr None\<rparr>"

text \<open>
  The slot-matching scenario of the specification: the badminton request and a row with a
  Register button.
\<close>

definition badmintonRequest :: BookingParams where
  "badmintonRequest =
     \<lparr>id = None, enabled = None, activity = ''Drop In Badminton - Adult'',
      date = ''03-Feb-2026'', time = ''8:15 am'', location = ''Cloverdale Recreation Centre'',
      preferWaitlist = None\<rparr>"

definition badmintonRow :: row where
  "badmintonRow =
     \<lparr>textContent =
        Inr (Some ''Drop In Badminton - Adult  Tue, Feb 03  8:15 am - 10:15 am  Cloverdale Recreation Centre  12 spot(s) left''),
      registerBtn = Inr (Some (okButton ''Register for Drop In Badminton - Adult'')),
      waitlistBtn = Inr None\<rparr>"

text \<open>A short row that holds activity, time and location of its request, with a Register button.\<close>

definition yogaRequest :: BookingParams where
  "yogaRequest =
     \<lparr>id = None, enabled = None, activity = ''Yoga'', date = ''03-Feb-2026'',
      time = ''08:15 am'', location = ''Gym'', preferWaitlist = None\<rparr>"

definition yogaRow :: row where
  "yogaRow =
     \<lparr>textContent = Inr (Some ''Yoga 08:15 am Gym''),
      registerBtn = Inr (Some (okButton ''Register for Yoga'')),
      waitlistBtn = Inr None\<rparr>"

text \<open>
  Normal forms of a text: every white-space character is a space and no two spaces are
  adjacent; no white space at either end; every character is its own lower case.
\<close>

definition wsCollapsed :: "string \<Rightarrow> bool" where
  "wsCollapsed s =
     (list_all (\<lambda>c. \<not> isWhitespace c \<or> c = CHR '' '') s \<and> \<not> includesStr s ''  '')"

definition trimmed :: "string \<Rightarrow> bool" where
  "trimmed s = (s = [] \<or> (\<not> isWhitespace (hd s) \<and> \<not> isWhitespace (last s)))"

definition lowerCased :: "string \<Rightarrow> bool" where
  "lowerCased s = (toLowerCase s = s)"

text \<open>A configuration file with the basketball and the badminton request, both enabled.\<close>

definition twoBookings :: BookingConfig where
  "twoBookings = \<lparr>description = ''two bookings'', bookings = [basketballRequest, badmintonRequest]\<rparr>"

text \<open>
  Stand-ins for the two parameters of \<open>executeBooking\<close> in a run of the Friday rule on
  Friday 30 January 2026, whose target date is Monday 2 February 2026: the formatted
  target date, and a phased attempt that returns the failure "Slot not found".
\<close>

definition formatSecondFebruary :: "date \<Rightarrow> string" where
  "formatSecondFebruary d = ''02-Feb-2026''"

definition phasesNotFound :: "BookingParams \<Rightarrow> int \<Rightarrow> int \<Rightarrow> BookingResult js" where
  "phasesNotFound params h m = Inr ((initialResult params)\<lparr>message := ''Slot not found''\<rparr>)"

section \<open>Properties of the trigger computation\<close>

lemma setHours_div_hour: "setHours d h div 3600000 = (d div 86400000) * 24 + h"
proof -
  have "setHours d h = ((d div 86400000) * 24 + h) * 3600000 + d mod 3600000"
    by (simp add: setHours_def algebra_simps)
  then show ?thesis by simp
qed

lemma setHours_mod_minute: "setHours d h mod 60000 = d mod 60000"
proof -
  define k where "k = (d div 86400000) * 1440 + h * 60"
  have "setHours d h = k * 60000 + d mod 3600000"
    by (simp add: setHours_def k_def algebra_simps)
  then have "setHours d h mod 60000 = (d mod 3600000) mod 60000"
    by (simp only: mod_mult_self3)
  also have "\<dots> = d mod 60000"
    by (rule mod_mod_cancel) simp
  finally show ?thesis .
qed

lemma setMinutes_setHours:
  "setMinutes (setHours d h) m = (d div 86400000) * 86400000 + (60 * h + m) * 60000 + d mod 60000"
  by (simp add: setMinutes_def setHours_div_hour setHours_mod_minute algebra_simps)

lemma canon_div_day:
  fixes k t s :: int
  assumes "0 \<le> t" "t \<le> 1439" "0 \<le> s" "s < 60000"
  shows "(k * 86400000 + t * 60000 + s) div 86400000 = k"
proof -
  have "0 \<le> t * 60000 + s" "t * 60000 + s < 86400000" using assms by simp_all
  then have "(k * 86400000 + (t * 60000 + s)) div 86400000 = k" by simp
  then show ?thesis by (simp add: add.assoc)
qed

lemma canon_mod_day:
  fixes k t s :: int
  assumes "0 \<le> t" "t \<le> 1439" "0 \<le> s" "s < 60000"
  shows "(k * 86400000 + t * 60000 + s) mod 86400000 = t * 60000 + s"
proof -
  have "0 \<le> t * 60000 + s" "t * 60000 + s < 86400000" using assms by simp_all
  then have "(k * 86400000 + (t * 60000 + s)) mod 86400000 = t * 60000 + s" by simp
  then show ?thesis by (simp add: add.assoc)
qed

lemma canon_minuteOfDay:
  fixes k t s :: int
  assumes "0 \<le> t" "t \<le> 1439" "0 \<le> s" "s < 60000"
  shows "minuteOfDay (k * 86400000 + t * 60000 + s) = t"
  using assms by (simp add: minuteOfDay_def canon_mod_day)

lemma canon_mod_minute:
  fixes k t s :: int
  assumes "0 \<le> s" "s < 60000"
  shows "(k * 86400000 + t * 60000 + s) mod 60000 = s"
proof -
  have "k * 86400000 + t * 60000 + s = (k * 1440 + t) * 60000 + s" by (simp add: algebra_simps)
  then have "(k * 86400000 + t * 60000 + s) mod 60000 = s mod 60000" by (simp only: mod_mult_self3)
  then show ?thesis using assms by simp
qed

lemma minuteOfDay_bounds: "0 \<le> minuteOfDay d \<and> minuteOfDay d \<le> 1439"
proof -
  have "0 \<le> d mod 86400000" "d mod 86400000 < 86400000" by simp_all
  then show ?thesis unfolding minuteOfDay_def by arith
qed

lemma date_split: "(d::int) = (d div 86400000) * 86400000 + minuteOfDay d * 60000 + d mod 60000"
proof -
  have "(d mod 86400000) mod 60000 = d mod 60000" by (rule mod_mod_cancel) simp
  then have "d mod 86400000 = ((d mod 86400000) div 60000) * 60000 + d mod 60000"
    by (metis mult.commute mult_div_mod_eq)
  moreover have "d = (d div 86400000) * 86400000 + d mod 86400000" by simp
  ultimately show ?thesis unfolding minuteOfDay_def by linarith
qed

lemma getDay_range: "0 \<le> getDay d \<and> getDay d \<le> 6"
  by (simp add: getDay_def)


lemma lt_canon:
  fixes a x mo s n :: int
  shows "n = a + mo * 60000 + s \<Longrightarrow> (a + x * 60000 + s < n) = (x < mo)"
  by simp

lemma isBefore_trigger:
  "isBefore (setMinutes (setHours now h) m) now \<longleftrightarrow> 60 * h + m < minuteOfDay now"
  unfolding isBefore_def setMinutes_setHours
  by (rule lt_canon) (rule date_split)

lemma addDays_div_day: "(addDays now k) div 86400000 = now div 86400000 + k"
  by (simp add: addDays_def)

lemma addDays_mod_minute: "(addDays now k) mod 60000 = now mod 60000"
proof -
  have "addDays now k = (k * 1440) * 60000 + now" by (simp add: addDays_def)
  then show ?thesis by (simp only: mod_mult_self3)
qed

lemma getNextCronTrigger_unfold:
  "getNextCronTrigger s now =
     (now div 86400000 +
        (if (if cronDay s - getDay now < 0 then cronDay s - getDay now + 7
             else cronDay s - getDay now) = 0
         then (if 60 * releaseHour s + (releaseMinute s - 2) < minuteOfDay now then 7 else 0)
         else (if cronDay s - getDay now < 0 then cronDay s - getDay now + 7
               else cronDay s - getDay now))) * 86400000
     + (60 * releaseHour s + (releaseMinute s - 2)) * 60000 + now mod 60000"
  apply (simp only: getNextCronTrigger_def Let_def isBefore_trigger)
  apply (simp only: setMinutes_setHours addDays_div_day addDays_mod_minute)
  apply (simp split: if_splits)
  done

lemma getNextCronTrigger_eq:
  assumes "validRule s"
  shows "getNextCronTrigger s now =
           (now div 86400000 + daysUntilTrigger s now) * 86400000
           + (60 * releaseHour s + releaseMinute s - 2) * 60000 + now mod 60000"
proof -
  have r: "0 \<le> getDay now" "getDay now \<le> 6" using getDay_range[of now] by simp_all
  have c: "0 \<le> cronDay s" "cronDay s \<le> 6" using assms by (simp_all add: validRule_def)
  have t: "60 * releaseHour s + (releaseMinute s - 2) = 60 * releaseHour s + releaseMinute s - 2"
    by simp
  show ?thesis
  proof (cases "getDay now = cronDay s")
    case True
    then show ?thesis
      unfolding getNextCronTrigger_unfold daysUntilTrigger_def t by simp
  next
    case False
    have "(cronDay s - getDay now) mod 7 =
            (if cronDay s - getDay now < 0 then cronDay s - getDay now + 7
             else cronDay s - getDay now)"
      using r c by (auto simp: mod_pos_pos_trivial) (smt (verit) mod_add_self2 mod_pos_pos_trivial)
    moreover have "(if cronDay s - getDay now < 0 then cronDay s - getDay now + 7
             else cronDay s - getDay now) \<noteq> 0" using False r c by auto
    ultimately show ?thesis
      unfolding getNextCronTrigger_unfold daysUntilTrigger_def t using False by simp
  qed
qed

lemma triggerMinute_range:
  "validRule s \<Longrightarrow> 0 \<le> triggerMinute s \<and> triggerMinute s \<le> 1437"
  by (auto simp: validRule_def triggerMinute_def)

lemma daysUntilTrigger_cases:
  "daysUntilTrigger s now = 0 \<or> 1 \<le> daysUntilTrigger s now"
proof -
  have "0 \<le> (cronDay s - getDay now) mod 7" by simp
  then show ?thesis unfolding daysUntilTrigger_def by auto
qed

lemma daysUntilTrigger_zero:
  assumes "validRule s"
  shows "daysUntilTrigger s now = 0 \<longleftrightarrow>
           getDay now = cronDay s \<and> \<not> triggerMinute s < minuteOfDay now"
proof -
  have r: "0 \<le> getDay now" "getDay now \<le> 6" using getDay_range[of now] by simp_all
  have c: "0 \<le> cronDay s" "cronDay s \<le> 6" using assms by (simp_all add: validRule_def)
  have "getDay now \<noteq> cronDay s \<Longrightarrow> (cronDay s - getDay now) mod 7 \<noteq> 0"
    using r c by presburger
  then show ?thesis unfolding daysUntilTrigger_def triggerMinute_def by auto
qed

lemma getDay_trigger:
  assumes "validRule s"
  shows "(getDay now + daysUntilTrigger s now) mod 7 = cronDay s"
proof -
  have r: "0 \<le> getDay now" "getDay now \<le> 6" using getDay_range[of now] by simp_all
  have c: "0 \<le> cronDay s" "cronDay s \<le> 6" using assms by (simp_all add: validRule_def)
  show ?thesis unfolding daysUntilTrigger_def using r c by (auto simp: mod_simps)
qed

lemma trigger_parts:
  fixes s now
  assumes "validRule s"
  defines "R \<equiv> getNextCronTrigger s now"
  shows "R div 86400000 = now div 86400000 + daysUntilTrigger s now"
    and "minuteOfDay R = triggerMinute s"
    and "R mod 60000 = now mod 60000"
    and "getDay R = cronDay s"
proof -
  have t: "0 \<le> triggerMinute s" "triggerMinute s \<le> 1439"
    using triggerMinute_range[OF assms(1)] by simp_all
  have s: "0 \<le> now mod 60000" "now mod 60000 < 60000" by simp_all
  have R: "R = (now div 86400000 + daysUntilTrigger s now) * 86400000
             + triggerMinute s * 60000 + now mod 60000"
    unfolding R_def triggerMinute_def by (rule getNextCronTrigger_eq[OF assms(1)])
  show d: "R div 86400000 = now div 86400000 + daysUntilTrigger s now"
    unfolding R by (rule canon_div_day[OF t s])
  show "minuteOfDay R = triggerMinute s"
    unfolding R by (rule canon_minuteOfDay[OF t s])
  show "R mod 60000 = now mod 60000"
    unfolding R by (rule canon_mod_minute[OF s])
  have "getDay R = (getDay now + daysUntilTrigger s now) mod 7"
    unfolding getDay_def d by (simp add: mod_simps algebra_simps)
  then show "getDay R = cronDay s" using getDay_trigger[OF assms(1)] by simp
qed

lemma trigger_ge_now:
  assumes "validRule s"
  shows "now \<le> getNextCronTrigger s now"
    and "getNextCronTrigger s now = now \<longleftrightarrow>
           getDay now = cronDay s \<and> minuteOfDay now = triggerMinute s"
proof -
  let ?R = "getNextCronTrigger s now"
  let ?du = "daysUntilTrigger s now"
  have t: "0 \<le> triggerMinute s" "triggerMinute s \<le> 1439"
    using triggerMinute_range[OF assms] by simp_all
  have m: "0 \<le> minuteOfDay now" "minuteOfDay now \<le> 1439"
    using minuteOfDay_bounds[of now] by simp_all
  have R: "?R = (now div 86400000 + ?du) * 86400000
             + triggerMinute s * 60000 + now mod 60000"
    unfolding triggerMinute_def by (rule getNextCronTrigger_eq[OF assms])
  have N: "now = (now div 86400000) * 86400000 + minuteOfDay now * 60000 + now mod 60000"
    by (rule date_split)
  have diff: "?R - now = ?du * 86400000 + (triggerMinute s - minuteOfDay now) * 60000"
    using R N by (simp add: algebra_simps)
  consider (zero) "?du = 0" | (pos) "1 \<le> ?du" using daysUntilTrigger_cases by blast
  then have "now \<le> ?R \<and> (?R = now \<longleftrightarrow> getDay now = cronDay s \<and> minuteOfDay now = triggerMinute s)"
  proof cases
    case zero
    then have z: "getDay now = cronDay s" "\<not> triggerMinute s < minuteOfDay now"
      using daysUntilTrigger_zero[OF assms, of now] by simp_all
    have "?R - now = (triggerMinute s - minuteOfDay now) * 60000" using diff zero by simp
    then show ?thesis using z by auto
  next
    case pos
    then have nz: "\<not> (getDay now = cronDay s \<and> \<not> triggerMinute s < minuteOfDay now)"
      using daysUntilTrigger_zero[OF assms, of now] by auto
    have "86400000 \<le> ?du * 86400000" using pos by simp
    moreover have "- 1439 * 60000 \<le> (triggerMinute s - minuteOfDay now) * 60000"
      using t m by simp
    ultimately have "0 < ?R - now" using diff by linarith
    then show ?thesis using nz by auto
  qed
  then show "now \<le> ?R" and "?R = now \<longleftrightarrow> getDay now = cronDay s \<and> minuteOfDay now = triggerMinute s"
    by simp_all
qed

text \<open>Every rule of the catalogue is well-formed.\<close>

lemma catalogue_valid: "list_all validRule SCHEDULES"
  by (simp add: SCHEDULES_def validRule_def)

text \<open>
  Well-formedness asks for a release time from 00:02 on. For a release at 00:00 the
  trigger minute is 23:58 of the day before the trigger day, and the announced trigger can
  lie before \<open>now\<close>: a Friday rule released at 00:00, asked on Thursday 29 January 2026 at
  23:59, announces that Thursday at 23:58.
\<close>

lemma midnight_rule_trigger_before_now:
  "getNextCronTrigger ((SCHEDULES ! 0)\<lparr>releaseHour := 0, releaseMinute := 0\<rparr>) 1769731140000
     = 1769731080000"
  by (simp add: getNextCronTrigger_unfold SCHEDULES_def getDay_def minuteOfDay_def)

subsection \<open>Claims on the trigger instant and the target date\<close>

text \<open>
  C3, as the trigger computation is designed. For every well-formed rule and every instant
  \<open>now\<close> the announced trigger is not before \<open>now\<close> and lies on the rule's trigger weekday
  in the trigger minute (release time less two minutes). When \<open>now\<close> is exactly the trigger
  day at release time less the lead, the trigger is \<open>now\<close> itself: the instant is selected
  again, not treated as past. Once the trigger minute is over on the trigger day, the
  trigger lies seven days later.
\<close>

theorem getNextCronTrigger_not_before_now:
  assumes "validRule s"
  shows "now \<le> getNextCronTrigger s now \<and>
         getDay (getNextCronTrigger s now) = cronDay s \<and>
         minuteOfDay (getNextCronTrigger s now) = triggerMinute s \<and>
         (getDay now = cronDay s \<and> now = startOfDay now + triggerMinute s * 60000 \<longrightarrow>
            getNextCronTrigger s now = now) \<and>
         (getDay now = cronDay s \<and> triggerMinute s < minuteOfDay now \<longrightarrow>
            startOfDay (getNextCronTrigger s now) = addDays (startOfDay now) 7)"
proof -
  have t: "0 \<le> triggerMinute s" "triggerMinute s \<le> 1439"
    using triggerMinute_range[OF assms] by simp_all
  have exact: "getNextCronTrigger s now = now"
    if "getDay now = cronDay s" "now = startOfDay now + triggerMinute s * 60000"
  proof -
    have "minuteOfDay ((now div 86400000) * 86400000 + triggerMinute s * 60000 + 0)
            = triggerMinute s"
      by (rule canon_minuteOfDay[OF t]) simp_all
    then have "minuteOfDay now = triggerMinute s"
      using that(2) by (simp add: startOfDay_def)
    then show ?thesis using trigger_ge_now(2)[OF assms, of now] that(1) by simp
  qed
  have later: "startOfDay (getNextCronTrigger s now) = addDays (startOfDay now) 7"
    if "getDay now = cronDay s" "triggerMinute s < minuteOfDay now"
  proof -
    have "daysUntilTrigger s now = 7"
      using that by (simp add: daysUntilTrigger_def triggerMinute_def)
    then have "getNextCronTrigger s now div 86400000 = now div 86400000 + 7"
      using trigger_parts(1)[OF assms, of now] by simp
    then show ?thesis by (simp add: startOfDay_def addDays_def algebra_simps)
  qed
  show ?thesis
    using trigger_ge_now(1)[OF assms, of now] trigger_parts(2,4)[OF assms, of now] exact later
    by blast
qed

text \<open>
  The Friday rule (release 18:30) on Friday 30 January 2026: at 18:28:00.000 sharp the
  trigger is that very instant, and at 18:29:00.000 it lies on Friday 6 February.
\<close>

theorem getNextCronTrigger_not_before_now_witness:
  "validRule (SCHEDULES ! 0) \<and>
   getDay 1769797680000 = cronDay (SCHEDULES ! 0) \<and>
   1769797680000 = startOfDay 1769797680000 + triggerMinute (SCHEDULES ! 0) * 60000 \<and>
   getNextCronTrigger (SCHEDULES ! 0) 1769797680000 = 1769797680000 \<and>
   getDay 1769797740000 = cronDay (SCHEDULES ! 0) \<and>
   triggerMinute (SCHEDULES ! 0) < minuteOfDay 1769797740000 \<and>
   startOfDay (getNextCronTrigger (SCHEDULES ! 0) 1769797740000) = 1770336000000 \<and>
   1769797740000 \<le> getNextCronTrigger (SCHEDULES ! 0) 1769797740000"
proof -
  have v: "validRule (SCHEDULES ! 0)"
    by (simp add: SCHEDULES_def validRule_def)
  have a: "getDay 1769797680000 = cronDay (SCHEDULES ! 0)"
    "1769797680000 = startOfDay 1769797680000 + triggerMinute (SCHEDULES ! 0) * 60000"
    by (simp_all add: SCHEDULES_def getDay_def startOfDay_def triggerMinute_def)
  have b: "getDay 1769797740000 = cronDay (SCHEDULES ! 0)"
    "triggerMinute (SCHEDULES ! 0) < minuteOfDay 1769797740000"
    by (simp_all add: SCHEDULES_def getDay_def minuteOfDay_def triggerMinute_def)
  have c: "addDays (startOfDay 1769797740000) 7 = 1770336000000"
    by (simp add: addDays_def startOfDay_def)
  note t1 = getNextCronTrigger_not_before_now[OF v, of 1769797680000]
  note t2 = getNextCronTrigger_not_before_now[OF v, of 1769797740000]
  have r1: "getNextCronTrigger (SCHEDULES ! 0) 1769797680000 = 1769797680000"
    using t1 a by blast
  have r2: "startOfDay (getNextCronTrigger (SCHEDULES ! 0) 1769797740000) = 1770336000000"
    using t2 b c by simp
  have r3: "1769797740000 \<le> getNextCronTrigger (SCHEDULES ! 0) 1769797740000"
    using t2 by blast
  show ?thesis using v a r1 b r2 r3 by blast
qed

text \<open>
  C3 as the specification states it fails: for the Friday rule at Friday 30 January 2026,
  18:28:00.000 (release time less the lead, to the millisecond) the trigger is not after
  that instant, and it is not seven days later.
\<close>

theorem getNextCronTrigger_boundary_counterexample:
  "\<not> (1769797680000 < getNextCronTrigger (SCHEDULES ! 0) 1769797680000) \<and>
   getDay 1769797680000 = cronDay (SCHEDULES ! 0) \<and>
   1769797680000 = releaseInstant (SCHEDULES ! 0) 1769797680000 - 2 * 60000 \<and>
   getNextCronTrigger (SCHEDULES ! 0) 1769797680000 \<noteq> addDays 1769797680000 7"
  by (simp add: SCHEDULES_def getNextCronTrigger_unfold getDay_def minuteOfDay_def
      addDays_def releaseInstant_def startOfDay_def)

text \<open>
  C2, as the code has it. For every well-formed rule, asking for the trigger again at the
  trigger it has just announced returns that same trigger (the computation is idempotent);
  the trigger of the following week, seven days later, is announced once the trigger
  minute is over, for instance one minute after the trigger.
\<close>

theorem getNextCronTrigger_again:
  assumes "validRule s"
  shows "getNextCronTrigger s (getNextCronTrigger s now) = getNextCronTrigger s now \<and>
         getNextCronTrigger s (getNextCronTrigger s now + 60000) =
           addDays (getNextCronTrigger s now) 7"
proof -
  let ?R = "getNextCronTrigger s now"
  let ?k = "now div 86400000 + daysUntilTrigger s now"
  have t: "0 \<le> triggerMinute s" "triggerMinute s \<le> 1437"
    using triggerMinute_range[OF assms] by simp_all
  have s0: "0 \<le> now mod 60000" "now mod 60000 < 60000" by simp_all
  have first: "getNextCronTrigger s ?R = ?R"
    using trigger_ge_now(2)[OF assms, of ?R] trigger_parts(2,4)[OF assms, of now] by simp
  have R: "?R = ?k * 86400000 + triggerMinute s * 60000 + now mod 60000"
    unfolding triggerMinute_def by (rule getNextCronTrigger_eq[OF assms])
  have R': "?R + 60000 = ?k * 86400000 + (triggerMinute s + 1) * 60000 + now mod 60000"
    using R by (simp add: algebra_simps)
  have t': "0 \<le> triggerMinute s + 1" "triggerMinute s + 1 \<le> 1439" using t by simp_all
  have k: "?R div 86400000 = ?k" by (rule trigger_parts(1)[OF assms])
  have d: "(?R + 60000) div 86400000 = ?k"
    unfolding R' by (rule canon_div_day[OF t' s0])
  have m: "minuteOfDay (?R + 60000) = triggerMinute s + 1"
    unfolding R' by (rule canon_minuteOfDay[OF t' s0])
  have sec: "(?R + 60000) mod 60000 = now mod 60000"
    unfolding R' by (rule canon_mod_minute[OF s0])
  have "getDay (?R + 60000) = getDay ?R"
    unfolding getDay_def d k ..
  then have g: "getDay (?R + 60000) = cronDay s"
    using trigger_parts(4)[OF assms, of now] by simp
  have du: "daysUntilTrigger s (?R + 60000) = 7"
    unfolding daysUntilTrigger_def using g m by (simp add: triggerMinute_def)
  have "getNextCronTrigger s (?R + 60000) =
          (?k + 7) * 86400000 + triggerMinute s * 60000 + now mod 60000"
    using getNextCronTrigger_eq[OF assms, of "?R + 60000"]
    by (simp only: du d sec triggerMinute_def)
  also have "\<dots> = ?R + 7 * 86400000"
    using R by (simp add: algebra_simps)
  finally have second: "getNextCronTrigger s (?R + 60000) = addDays ?R 7"
    by (simp add: addDays_def)
  show ?thesis using first second by simp
qed

text \<open>
  The Friday rule from Wednesday 28 January 2026, 12:28: the trigger is Friday 30 January,
  18:28; asked again there it stays, and a minute later it is Friday 6 February, 18:28.
\<close>

theorem getNextCronTrigger_again_witness:
  "validRule (SCHEDULES ! 0) \<and>
   getNextCronTrigger (SCHEDULES ! 0) 1769603280000 = 1769797680000 \<and>
   getNextCronTrigger (SCHEDULES ! 0) (getNextCronTrigger (SCHEDULES ! 0) 1769603280000)
     = 1769797680000 \<and>
   getNextCronTrigger (SCHEDULES ! 0) (getNextCronTrigger (SCHEDULES ! 0) 1769603280000 + 60000)
     = 1770402480000"
proof -
  have v: "validRule (SCHEDULES ! 0)"
    by (simp add: SCHEDULES_def validRule_def)
  have a: "getNextCronTrigger (SCHEDULES ! 0) 1769603280000 = 1769797680000"
    by (simp add: SCHEDULES_def getNextCronTrigger_unfold getDay_def minuteOfDay_def)
  show ?thesis
    using getNextCronTrigger_again[OF v, of 1769603280000] v a
    by (simp add: addDays_def)
qed

text \<open>
  C2 as the specification states it fails: for the Friday rule and Wednesday 28 January
  2026, 12:28, the trigger of the trigger is the same Friday 18:28, a whole week (far more
  than a daylight-saving hour) short of the trigger plus seven days.
\<close>

theorem getNextCronTrigger_weekly_counterexample:
  "getNextCronTrigger (SCHEDULES ! 0) (getNextCronTrigger (SCHEDULES ! 0) 1769603280000)
     \<noteq> addDays (getNextCronTrigger (SCHEDULES ! 0) 1769603280000) 7 \<and>
   getNextCronTrigger (SCHEDULES ! 0) (getNextCronTrigger (SCHEDULES ! 0) 1769603280000)
     + 3600000 < addDays (getNextCronTrigger (SCHEDULES ! 0) 1769603280000) 7"
  by (simp add: SCHEDULES_def getNextCronTrigger_unfold getDay_def minuteOfDay_def
      addDays_def)




text \<open>
  The restriction to the catalogue is needed. Inside the release minute the function
  still computes from \<open>now\<close>, which shows for a rule whose target day is the day after its
  trigger day: released on Friday 18:30 with the next Saturday as target, at Friday 30
  January 2026, 18:30:45, the target is Saturday 31 January, not Saturday 7 February.
\<close>

lemma getNextTargetDate_outside_catalogue:
  "getNextTargetDate ((SCHEDULES ! 0)\<lparr>targetDay := nextSaturday\<rparr>) 1769797845000
     = nextSaturday 1769797845000 \<and>
   nextSaturday 1769797845000 \<noteq> nextSaturday (addDays 1769797845000 1)"
  by (simp add: SCHEDULES_def getNextTargetDate_def getDay_def setHours_def setMinutes_def
      addDays_def isBefore_def nextSaturday_def nextDay_def)

section \<open>Properties of the string functions\<close>

lemma startsWith_iff: "startsWith hay needle \<longleftrightarrow> (\<exists>v. hay = needle @ v)"
  by (induction hay needle rule: startsWith.induct) auto

lemma includesStr_iff: "includesStr hay needle \<longleftrightarrow> (\<exists>u v. hay = u @ needle @ v)"
proof (induction hay)
  case Nil
  then show ?case by (auto simp: startsWith_iff)
next
  case (Cons h hs)
  show ?case
  proof
    assume "includesStr (h # hs) needle"
    then consider "startsWith (h # hs) needle" | "includesStr hs needle" by auto
    then show "\<exists>u v. h # hs = u @ needle @ v"
    proof cases
      case 1
      then obtain v where "h # hs = needle @ v" using startsWith_iff by blast
      then have "h # hs = [] @ needle @ v" by simp
      then show ?thesis by blast
    next
      case 2
      then obtain u v where "hs = u @ needle @ v" using Cons.IH by blast
      then have "h # hs = (h # u) @ needle @ v" by simp
      then show ?thesis by blast
    qed
  next
    assume "\<exists>u v. h # hs = u @ needle @ v"
    then obtain u v where e: "h # hs = u @ needle @ v" by blast
    show "includesStr (h # hs) needle"
    proof (cases u)
      case Nil
      then have "startsWith (h # hs) needle" using e startsWith_iff by auto
      then show ?thesis by simp
    next
      case (Cons x u')
      then have "hs = u' @ needle @ v" using e by simp
      then have "includesStr hs needle" using Cons.IH by blast
      then show ?thesis by simp
    qed
  qed
qed

lemma toLowerChar_whitespace: "isWhitespace c \<Longrightarrow> toLowerChar c = c"
  by (auto simp: isWhitespace_def toLowerChar_def Let_def)

lemma isWhitespace_toLowerChar: "isWhitespace (toLowerChar c) \<longleftrightarrow> isWhitespace c"
  by (auto simp: isWhitespace_def toLowerChar_def Let_def)

lemma toLowerChar_idem: "toLowerChar (toLowerChar c) = toLowerChar c"
  by (auto simp: toLowerChar_def Let_def)

lemma toLowerCase_idem: "toLowerCase (toLowerCase s) = toLowerCase s"
  by (simp add: toLowerCase_def toLowerChar_idem)

lemma space_whitespace: "isWhitespace (CHR '' '')"
  by (simp add: isWhitespace_def)

lemma toLowerChar_space: "toLowerChar (CHR '' '') = CHR '' ''"
  by (simp add: toLowerChar_whitespace space_whitespace)

lemma collapseFrom_no_double:
  "\<not> includesStr (collapseFrom b s) ''  '' \<and> (b \<longrightarrow> \<not> startsWith (collapseFrom b s) '' '')"
proof (induction s arbitrary: b)
  case Nil
  then show ?case by simp
next
  case (Cons c cs)
  have sp: "\<not> isWhitespace c \<Longrightarrow> c \<noteq> CHR '' ''" using space_whitespace by auto
  show ?case
  proof (cases "isWhitespace c")
    case True
    then show ?thesis using Cons.IH[of True] by (cases "collapseFrom True cs") auto
  next
    case False
    then show ?thesis using Cons.IH[of False] sp by auto
  qed
qed

lemma collapseFrom_ws_space:
  "list_all (\<lambda>c. \<not> isWhitespace c \<or> c = CHR '' '') (collapseFrom b s)"
  by (induction s arbitrary: b) auto

lemma wsCollapsed_collapseWs: "wsCollapsed (collapseWs s)"
  unfolding wsCollapsed_def collapseWs_def
  using collapseFrom_no_double[of False s] collapseFrom_ws_space[of False s] by simp

lemma includesStr_rev: "includesStr (rev s) ''  '' \<longleftrightarrow> includesStr s ''  ''"
proof -
  have "\<exists>u v. s = u @ ''  '' @ v" if "rev s = u @ ''  '' @ v" for s :: string and u v
  proof -
    have "s = rev (u @ ''  '' @ v)" using that by (metis rev_rev_ident)
    then have "s = rev v @ ''  '' @ rev u" by simp
    then show ?thesis by blast
  qed
  then show ?thesis unfolding includesStr_iff by (metis rev_rev_ident)
qed

lemma includesStr_dropWhile:
  "includesStr (dropWhile P s) n \<Longrightarrow> includesStr s n"
proof -
  assume "includesStr (dropWhile P s) n"
  then obtain u v where "dropWhile P s = u @ n @ v" unfolding includesStr_iff by blast
  then have "s = (takeWhile P s @ u) @ n @ v" by (metis append.assoc takeWhile_dropWhile_id)
  then show ?thesis unfolding includesStr_iff by blast
qed

lemma wsCollapsed_dropWhile: "wsCollapsed s \<Longrightarrow> wsCollapsed (dropWhile P s)"
  unfolding wsCollapsed_def list_all_iff
  using includesStr_dropWhile[of P s] set_dropWhileD[of _ P s] by blast

lemma wsCollapsed_rev: "wsCollapsed (rev s) = wsCollapsed s"
  unfolding wsCollapsed_def list_all_iff includesStr_rev by simp

lemma wsCollapsed_trim: "wsCollapsed s \<Longrightarrow> wsCollapsed (trim s)"
  unfolding trim_def by (simp add: wsCollapsed_rev wsCollapsed_dropWhile)

lemma hd_dropWhile_not: "dropWhile P s \<noteq> [] \<Longrightarrow> \<not> P (hd (dropWhile P s))"
  by (metis hd_dropWhile)

lemma last_dropWhile: "dropWhile P s \<noteq> [] \<Longrightarrow> last (dropWhile P s) = last s"
  by (metis append_self_conv2 last_appendR takeWhile_dropWhile_id)

lemma trimmed_trim: "trimmed (trim s)"
proof (cases "trim s = []")
  case True
  then show ?thesis by (simp add: trimmed_def)
next
  case False
  let ?y = "dropWhile isWhitespace s"
  let ?z = "dropWhile isWhitespace (rev ?y)"
  have z: "?z \<noteq> []"
  proof
    assume "?z = []"
    then have "trim s = []" unfolding trim_def by (simp only: rev.simps)
    then show False using False by blast
  qed
  have y: "?y \<noteq> []"
  proof
    assume a: "?y = []"
    have "?z = []" unfolding a by simp
    then show False using z by blast
  qed
  have "last (trim s) = hd ?z" using z by (simp add: trim_def last_rev)
  then have l: "\<not> isWhitespace (last (trim s))" using hd_dropWhile_not[OF z] by simp
  have "hd (trim s) = last ?z" using z by (simp add: trim_def hd_rev)
  also have "\<dots> = last (rev ?y)" using z by (rule last_dropWhile)
  also have "\<dots> = hd ?y" using y by (simp add: last_rev)
  finally have "\<not> isWhitespace (hd (trim s))" using hd_dropWhile_not[OF y] by simp
  then show ?thesis using l by (simp add: trimmed_def)
qed

lemma collapseFrom_map_lower:
  "map toLowerChar (collapseFrom b s) = collapseFrom b (map toLowerChar s)"
  by (induction s arbitrary: b) (auto simp: isWhitespace_toLowerChar toLowerChar_space)

lemma dropWhile_map_lower:
  "map toLowerChar (dropWhile isWhitespace s) = dropWhile isWhitespace (map toLowerChar s)"
  by (induction s) (auto simp: isWhitespace_toLowerChar)

lemma trim_map_lower: "map toLowerChar (trim s) = trim (map toLowerChar s)"
  unfolding trim_def by (simp only: rev_map[symmetric] dropWhile_map_lower)

lemma toLowerCase_normal:
  "toLowerCase (trim (collapseWs (toLowerCase s))) = trim (collapseWs (toLowerCase s))"
  unfolding toLowerCase_def collapseWs_def
  by (simp only: trim_map_lower collapseFrom_map_lower map_map o_def toLowerChar_idem)

lemma rowTextOf_normal:
  "lowerCased (rowTextOf t) \<and> wsCollapsed (rowTextOf t) \<and> trimmed (rowTextOf t)"
  unfolding rowTextOf_def lowerCased_def
  by (simp add: toLowerCase_normal wsCollapsed_trim wsCollapsed_collapseWs trimmed_trim)

section \<open>Properties of the scan over the result rows\<close>

lemma scanRows_result:
  "scanRows A T L pw i rows = Inr (Some info, cs) \<Longrightarrow>
     (status info = Available \<and> buttonRef info = Some ''register'' \<and>
        (\<exists>j. cs = [(j, RegisterControl)])) \<or>
     (status info = Waitlist \<and>
        (if pw then buttonRef info = Some ''waitlist'' \<and> (\<exists>j. cs = [(j, WaitlistControl)])
         else buttonRef info = None \<and> cs = []))"
proof (induction rows arbitrary: i)
  case Nil
  then show ?case by simp
next
  case (Cons r rs)
  show ?case
    using Cons.prems Cons.IH[of "i + 1"]
    by (auto simp: Let_def split: sum.splits option.splits if_splits)
qed

lemma scanRows_step:
  "scanRows A T L pw i (r # rs) = scanRows A T L pw (i + 1) rs \<or>
   (\<exists>e. scanRows A T L pw i (r # rs) = Inl e) \<or>
   (\<exists>info cs. scanRows A T L pw i (r # rs) = Inr (Some info, cs) \<and> rowHit A T L r \<and>
      (cs = [] \<or> (\<exists>c. cs = [(i, c)] \<and> clickOk A T L pw r c)))"
  by (auto simp: Let_def rowHit_def clickOk_def split: sum.splits option.splits)

lemma scanRows_click_sound:
  "scanRows A T L pw i rows = Inr (res, cs) \<Longrightarrow> (j, c) \<in> set cs \<Longrightarrow>
     i \<le> j \<and> j < i + length rows \<and> clickOk A T L pw (rows ! (j - i)) c"
proof (induction rows arbitrary: i)
  case Nil
  then show ?case by simp
next
  case (Cons r rs)
  consider (skip) "scanRows A T L pw i (r # rs) = scanRows A T L pw (i + 1) rs"
    | (throw) e where "scanRows A T L pw i (r # rs) = Inl e"
    | (stop) info cs' where "scanRows A T L pw i (r # rs) = Inr (Some info, cs')"
        "cs' = [] \<or> (\<exists>c. cs' = [(i, c)] \<and> clickOk A T L pw r c)"
    using scanRows_step[of A T L pw i r rs] by blast
  then show ?case
  proof cases
    case skip
    then have "scanRows A T L pw (i + 1) rs = Inr (res, cs)" using Cons.prems(1) by simp
    then have ih: "i + 1 \<le> j" "j < i + 1 + length rs" "clickOk A T L pw (rs ! (j - (i + 1))) c"
      using Cons.IH[of "i + 1"] Cons.prems(2) by simp_all
    have "j - i = Suc (j - (i + 1))" using ih(1) by simp
    then have "(r # rs) ! (j - i) = rs ! (j - (i + 1))" by simp
    then show ?thesis using ih by simp
  next
    case throw
    then show ?thesis using Cons.prems(1) by simp
  next
    case stop
    then have "cs = cs'" using Cons.prems(1) by simp
    then show ?thesis using stop(2) Cons.prems(2) by auto
  qed
qed

lemma scanRows_None: "scanRows A T L pw i rows = Inr (None, cs) \<Longrightarrow> cs = []"
proof (induction rows arbitrary: i)
  case Nil
  then show ?case by simp
next
  case (Cons r rs)
  show ?case
    using Cons.prems Cons.IH[of "i + 1"] scanRows_step[of A T L pw i r rs] by auto
qed

lemma scanRows_no_hit:
  "\<forall>r \<in> set rows. \<not> rowHit A T L r \<Longrightarrow>
     scanRows A T L pw i rows = Inr (None, []) \<or> (\<exists>e. scanRows A T L pw i rows = Inl e)"
proof (induction rows arbitrary: i)
  case Nil
  then show ?case by simp
next
  case (Cons r rs)
  then have "\<not> rowHit A T L r" by simp
  then have "scanRows A T L pw i (r # rs) = scanRows A T L pw (i + 1) rs \<or>
             (\<exists>e. scanRows A T L pw i (r # rs) = Inl e)"
    using scanRows_step[of A T L pw i r rs] by blast
  then show ?case using Cons.IH[of "i + 1"] Cons.prems by auto
qed

lemma scanRows_skipped:
  "skipped A T L r \<Longrightarrow> scanRows A T L pw i (r # rs) = scanRows A T L pw (i + 1) rs"
  by (auto simp: skipped_def rowHit_def Let_def split: sum.splits)

lemma scanRows_prefix_skipped:
  "\<forall>r \<in> set pre. skipped A T L r \<Longrightarrow>
     scanRows A T L pw i (pre @ rest) = scanRows A T L pw (i + length pre) rest"
proof (induction pre arbitrary: i)
  case Nil
  then show ?case by simp
next
  case (Cons r pre)
  then show ?case using scanRows_skipped[of A T L r pw i "pre @ rest"] by simp
qed

lemma scanRows_register_hit:
  assumes "rowHit A T L r" "registerBtn r = Inr (Some b)" "waitlistBtn r = Inr w"
    "workingButton b"
  shows "scanRows A T L pw i (r # rs) =
           Inr (Some \<lparr>status = Available, spotsLeft = None, elementRef = None,
                       buttonRef = Some ''register''\<rparr>, [(i, RegisterControl)])"
  using assms
  by (auto simp: rowHit_def workingButton_def Let_def split: sum.splits)

lemma scanRows_waitlist_hit:
  assumes "rowHit A T L r" "registerBtn r = Inr None" "waitlistBtn r = Inr (Some b)"
    "workingButton b"
  shows "scanRows A T L pw i (r # rs) =
           (if pw
            then Inr (Some \<lparr>status = Waitlist, spotsLeft = None, elementRef = None,
                             buttonRef = Some ''waitlist''\<rparr>, [(i, WaitlistControl)])
            else Inr (Some \<lparr>status = Waitlist, spotsLeft = None, elementRef = None,
                             buttonRef = None\<rparr>, []))"
  using assms
  by (auto simp: rowHit_def workingButton_def Let_def split: sum.splits)

lemma findAndSelectSlot_state:
  "snd (findAndSelectSlot p a) = a\<lparr>clicks := clicks (snd (findAndSelectSlot p a))\<rparr>"
  by (auto simp: findAndSelectSlot_def Let_def split: option.splits sum.splits prod.splits)

lemma findAndSelectSlot_returns:
  "page a = Some pg \<Longrightarrow> \<exists>info. fst (findAndSelectSlot p a) = Inr info"
  by (auto simp: findAndSelectSlot_def Let_def split: option.splits sum.splits prod.splits)

lemma findAndSelectSlot_throws:
  "fst (findAndSelectSlot p a) = Inl e \<Longrightarrow> page a = None \<and> snd (findAndSelectSlot p a) = a"
  by (auto simp: findAndSelectSlot_def Let_def split: option.splits sum.splits prod.splits)

lemma findAndSelectSlot_status:
  "fst (findAndSelectSlot p a) = Inr info \<Longrightarrow>
     status info = Available \<or> status info = Waitlist \<or> status info = NotFound"
  using scanRows_result
  by (fastforce simp: findAndSelectSlot_def Let_def notFoundInfo_def
      split: option.splits sum.splits prod.splits)

lemma findAndSelectSlot_clicks:
  assumes "page a = Some pg" "eventRows pg = Inr rows"
  shows "\<exists>cs. clicks (snd (findAndSelectSlot p a)) = clicks a @ cs \<and>
           (\<forall>j c. (j, c) \<in> set cs \<longrightarrow> j < length rows \<and> rowMatches p (rows ! j))"
proof -
  let ?A = "toLowerCase (BookingParams.activity p)"
  let ?T = "trim (collapseWs (toLowerCase (BookingParams.time p)))"
  let ?L = "toLowerCase (BookingParams.location p)"
  let ?pw = "truthy (preferWaitlist p)"
  show ?thesis
  proof (cases "scanRows ?A ?T ?L ?pw 0 rows")
    case (Inl e)
    then have "snd (findAndSelectSlot p a) = a"
      using assms by (simp add: findAndSelectSlot_def)
    then show ?thesis by simp
  next
    case (Inr res)
    obtain info cs where res: "res = (info, cs)" by (cases res)
    have sound: "\<forall>j c. (j, c) \<in> set cs \<longrightarrow> j < length rows \<and> rowMatches p (rows ! j)"
      using scanRows_click_sound[of ?A ?T ?L ?pw 0 rows info cs] Inr res
      by (auto simp: rowMatches_def clickOk_def)
    show ?thesis
    proof (cases info)
      case None
      then have "snd (findAndSelectSlot p a) = a"
        using assms Inr res by (simp add: findAndSelectSlot_def)
      then show ?thesis by simp
    next
      case (Some i)
      then have "snd (findAndSelectSlot p a) = a\<lparr>clicks := clicks a @ cs\<rparr>"
        using assms Inr res by (simp add: findAndSelectSlot_def)
      then show ?thesis using sound by simp
    qed
  qed
qed

lemma findAndSelectSlot_no_match:
  assumes "page a = Some pg" "eventRows pg = Inr rows" "\<forall>r \<in> set rows. \<not> rowMatches p r"
  shows "findAndSelectSlot p a = (Inr notFoundInfo, a)"
proof -
  let ?A = "toLowerCase (BookingParams.activity p)"
  let ?T = "trim (collapseWs (toLowerCase (BookingParams.time p)))"
  let ?L = "toLowerCase (BookingParams.location p)"
  let ?pw = "truthy (preferWaitlist p)"
  have "\<forall>r \<in> set rows. \<not> rowHit ?A ?T ?L r" using assms(3) by (simp add: rowMatches_def)
  then have "scanRows ?A ?T ?L ?pw 0 rows = Inr (None, []) \<or>
             (\<exists>e. scanRows ?A ?T ?L ?pw 0 rows = Inl e)"
    by (rule scanRows_no_hit)
  then show ?thesis using assms(1,2) by (auto simp: findAndSelectSlot_def)
qed

lemma findAndSelectSlot_register:
  assumes "page a = Some pg" "eventRows pg = Inr (pre @ r # post)"
    "\<forall>r' \<in> set pre. passedOver p r'" "rowMatches p r"
    "registerBtn r = Inr (Some b)" "waitlistBtn r = Inr w" "workingButton b"
  shows "findAndSelectSlot p a =
           (Inr \<lparr>status = Available, spotsLeft = None, elementRef = None,
                  buttonRef = Some ''register''\<rparr>,
            a\<lparr>clicks := clicks a @ [(length pre, RegisterControl)]\<rparr>)"
proof -
  let ?A = "toLowerCase (BookingParams.activity p)"
  let ?T = "trim (collapseWs (toLowerCase (BookingParams.time p)))"
  let ?L = "toLowerCase (BookingParams.location p)"
  let ?pw = "truthy (preferWaitlist p)"
  have "\<forall>r' \<in> set pre. skipped ?A ?T ?L r'" using assms(3) by (simp add: passedOver_def)
  then have "scanRows ?A ?T ?L ?pw 0 (pre @ r # post) =
               scanRows ?A ?T ?L ?pw (0 + length pre) (r # post)"
    by (rule scanRows_prefix_skipped)
  also have "\<dots> = Inr (Some \<lparr>status = Available, spotsLeft = None, elementRef = None,
                       buttonRef = Some ''register''\<rparr>, [(0 + length pre, RegisterControl)])"
    using assms(4) by (intro scanRows_register_hit[OF _ assms(5,6,7)]) (simp add: rowMatches_def)
  finally show ?thesis using assms(1,2) by (simp add: findAndSelectSlot_def)
qed

text \<open>
  The waitlist declined: when the first row that is not passed over matches and has a
  Waitlist button only, nothing is clicked and the status returned is \<open>waitlist\<close>.
\<close>

lemma findAndSelectSlot_waitlist_declined:
  assumes "page a = Some pg" "eventRows pg = Inr (pre @ r # post)"
    "\<forall>r' \<in> set pre. passedOver p r'" "rowMatches p r"
    "registerBtn r = Inr None" "waitlistBtn r = Inr (Some b)" "workingButton b"
    "\<not> truthy (preferWaitlist p)"
  shows "findAndSelectSlot p a =
           (Inr \<lparr>status = Waitlist, spotsLeft = None, elementRef = None, buttonRef = None\<rparr>, a)"
proof -
  let ?A = "toLowerCase (BookingParams.activity p)"
  let ?T = "trim (collapseWs (toLowerCase (BookingParams.time p)))"
  let ?L = "toLowerCase (BookingParams.location p)"
  let ?pw = "truthy (preferWaitlist p)"
  have h: "rowHit ?A ?T ?L r" using assms(4) by (simp add: rowMatches_def)
  have "\<forall>r' \<in> set pre. skipped ?A ?T ?L r'" using assms(3) by (simp add: passedOver_def)
  then have "scanRows ?A ?T ?L ?pw 0 (pre @ r # post) =
               scanRows ?A ?T ?L ?pw (0 + length pre) (r # post)"
    by (rule scanRows_prefix_skipped)
  also have "\<dots> = Inr (Some \<lparr>status = Waitlist, spotsLeft = None, elementRef = None,
                                buttonRef = None\<rparr>, [])"
    using scanRows_waitlist_hit[OF h assms(5,6,7), of ?pw "0 + length pre" post] assms(8)
    by simp
  finally show ?thesis using assms(1,2) by (simp add: findAndSelectSlot_def)
qed

lemma rowMatches_iff:
  "rowMatches p r \<longleftrightarrow>
     (\<exists>t. textContent r = Inr t \<and> 30 \<le> length (rowTextOf t) \<and>
        (\<exists>u v. rowTextOf t = u @ toLowerCase (BookingParams.activity p) @ v) \<and>
        (\<exists>u v. rowTextOf t = u @ trim (collapseWs (toLowerCase (BookingParams.time p))) @ v) \<and>
        (\<exists>u v. rowTextOf t = u @ firstWord (toLowerCase (BookingParams.location p)) @ v))"
  unfolding rowMatches_def rowHit_def includesStr_iff
  by (cases "textContent r") auto

lemma findAndSelectSlot_case_insensitive:
  assumes "toLowerCase (BookingParams.activity p') = toLowerCase (BookingParams.activity p)"
    "toLowerCase (BookingParams.time p') = toLowerCase (BookingParams.time p)"
    "toLowerCase (BookingParams.location p') = toLowerCase (BookingParams.location p)"
    "preferWaitlist p' = preferWaitlist p"
  shows "findAndSelectSlot p' a = findAndSelectSlot p a"
  unfolding findAndSelectSlot_def assms by (rule refl)

lemma short_row_skipped:
  assumes "textContent r = Inr t" "length (rowTextOf t) < 30"
  shows "\<not> rowMatches p r" "scanRows A T L pw i (r # rs) = scanRows A T L pw (i + 1) rs"
  using assms by (simp_all add: rowMatches_def rowHit_def)

section \<open>Properties of one booking attempt\<close>

lemma findAndSelectSlot_fields:
  "findAndSelectSlot p a = (x, a2) \<Longrightarrow>
     browser a2 = browser a \<and> bctx a2 = bctx a \<and> page a2 = page a \<and>
     closeCalls a2 = closeCalls a \<and> cleanupCalls a2 = cleanupCalls a"
  using findAndSelectSlot_state[of p a]
  by (metis automation.select_convs(1,2,3,5,6) automation.surjective automation.update_convs(4) snd_conv)

lemma initialize_fields:
  "closeCalls (snd (initialize s a)) = closeCalls a \<and>
   cleanupCalls (snd (initialize s a)) = cleanupCalls a \<and>
   clicks (snd (initialize s a)) = clicks a"
  by (simp add: initialize_def split: initOutcome.splits)

lemma initialize_ok:
  "fst (initialize s a) = Inr u \<longleftrightarrow> initResult s = InitOk"
  by (simp add: initialize_def split: initOutcome.splits)

lemma initialize_ok_page:
  "initResult s = InitOk \<Longrightarrow> page (snd (initialize s a)) = Some (listing s)"
  by (simp add: initialize_def)

lemma bookTry_fields:
  assumes "bookTry p s r a = (x, a')"
  shows "browser a' = browser (snd (initialize s a)) \<and> bctx a' = bctx (snd (initialize s a)) \<and>
         page a' = page (snd (initialize s a)) \<and>
         closeCalls a' = closeCalls a \<and> cleanupCalls a' = cleanupCalls a"
proof -
  obtain y a1 where i: "initialize s a = (y, a1)" by (cases "initialize s a")
  obtain z a2 where f: "findAndSelectSlot p a1 = (z, a2)" by (cases "findAndSelectSlot p a1")
  have a1: "closeCalls a1 = closeCalls a" "cleanupCalls a1 = cleanupCalls a"
    using initialize_fields[of s a] i by simp_all
  have a2: "browser a2 = browser a1" "bctx a2 = bctx a1" "page a2 = page a1"
    "closeCalls a2 = closeCalls a1" "cleanupCalls a2 = cleanupCalls a1"
    using findAndSelectSlot_fields[OF f] by simp_all
  have "a' = a1 \<or> a' = a2"
    using assms i f by (auto simp: bookTry_def split: sum.splits if_splits)
  then show ?thesis using a1 a2 i by auto
qed

lemma book_state:
  "snd (book p s a) = cleanup (snd (bookTry p s (initialResult p) a))"
  by (simp add: book_def Let_def split: prod.splits sum.splits)

lemma book_returns: "\<exists>r. fst (book p s a) = Inr r"
  by (simp add: book_def Let_def split: prod.splits sum.splits)

lemma book_init_throws:
  assumes "fst (initialize s a) = Inl e"
  shows "fst (book p s a) = Inr ((initialResult p)\<lparr>message := ''Booking failed'', error := Some e\<rparr>)"
proof -
  obtain a1 where "initialize s a = (Inl e, a1)" using assms by (cases "initialize s a") simp
  then show ?thesis by (simp add: book_def bookTry_def)
qed

lemma success_initialResult: "\<not> success (initialResult p)"
  by (simp add: initialResult_def)

lemma findAndSelectSlot_found:
  assumes "page a = Some pg" "fst (findAndSelectSlot p a) = Inr info" "status info \<noteq> NotFound"
  shows "\<exists>rows cs. eventRows pg = Inr rows \<and>
           scanRows (toLowerCase (BookingParams.activity p))
             (trim (collapseWs (toLowerCase (BookingParams.time p))))
             (toLowerCase (BookingParams.location p)) (truthy (preferWaitlist p)) 0 rows
           = Inr (Some info, cs)"
  using assms
  by (auto simp: findAndSelectSlot_def notFoundInfo_def split: sum.splits option.splits prod.splits)

lemma bookTry_success:
  assumes "bookTry p s (initialResult p) a = (Inr r, a')" "success r"
  shows "initResult s = InitOk \<and> loginBody s = Inr True \<and> filterBody s = Inr () \<and>
         registrationBody s = Inr () \<and>
         (\<exists>info. fst (findAndSelectSlot p (snd (initialize s a))) = Inr info \<and>
                 status info \<noteq> NotFound)"
proof -
  obtain y a1 where i: "initialize s a = (y, a1)" by (cases "initialize s a")
  obtain z a2 where f: "findAndSelectSlot p a1 = (z, a2)" by (cases "findAndSelectSlot p a1")
  show ?thesis
    using assms i f success_initialResult[of p] initialize_ok[of s a]
    by (auto simp: bookTry_def login_def navigateAndFilter_def completeRegistration_def
        split: sum.splits if_splits option.splits)
qed

lemma book_never_slot_is_full:
  assumes "fst (book p s a) = Inr r"
  shows "message r \<noteq> ''Slot is full''"
proof -
  obtain y a1 where i: "initialize s a = (y, a1)" by (cases "initialize s a")
  obtain z a2 where f: "findAndSelectSlot p a1 = (z, a2)" by (cases "findAndSelectSlot p a1")
  have nf: "\<And>info. z = Inr info \<Longrightarrow> status info \<noteq> Full"
    using findAndSelectSlot_status[of p a1] f by auto
  show ?thesis
    using assms i f nf
    by (auto simp: book_def bookTry_def Let_def initialResult_def
        split: sum.splits if_splits prod.splits)
qed

lemma book_login_throws:
  assumes "initResult s = InitOk" "loginBody s = Inl e \<or> loginBody s = Inr False"
  shows "fst (book p s a) =
           Inr ((initialResult p)\<lparr>message := ''Login failed'',
                  error := Some ''Could not login to Surrey booking system''\<rparr>)"
  using assms by (auto simp: book_def bookTry_def initialize_def login_def)

lemma book_filter_throws:
  assumes "initResult s = InitOk" "loginBody s = Inr True" "filterBody s = Inl e"
  shows "fst (book p s a) =
           Inr ((initialResult p)\<lparr>message := ''Failed to apply filters'',
                  error := Some ''Could not navigate to booking page or apply filters''\<rparr>)"
  using assms by (simp add: book_def bookTry_def initialize_def login_def navigateAndFilter_def)

lemma book_scan_throws:
  assumes "initResult s = InitOk" "loginBody s = Inr True" "filterBody s = Inr ()"
    "eventRows (listing s) = Inl e \<or>
     (\<exists>rows. eventRows (listing s) = Inr rows \<and>
        scanRows (toLowerCase (BookingParams.activity p))
          (trim (collapseWs (toLowerCase (BookingParams.time p))))
          (toLowerCase (BookingParams.location p)) (truthy (preferWaitlist p)) 0 rows = Inl e)"
  shows "fst (book p s a) =
           Inr ((initialResult p)\<lparr>message := ''Slot not found'',
                  error := Some (''Could not find slot for '' @ BookingParams.activity p
                     @ '' at '' @ BookingParams.time p @ '' - '' @ BookingParams.location p)\<rparr>)"
  using assms
  by (auto simp: book_def bookTry_def initialize_def login_def navigateAndFilter_def
      findAndSelectSlot_def notFoundInfo_def)

lemma book_registration_throws:
  assumes "initResult s = InitOk" "loginBody s = Inr True" "filterBody s = Inr ()"
    "eventRows (listing s) = Inr rows"
    "scanRows (toLowerCase (BookingParams.activity p))
          (trim (collapseWs (toLowerCase (BookingParams.time p))))
          (toLowerCase (BookingParams.location p)) (truthy (preferWaitlist p)) 0 rows
       = Inr (Some info, cs)"
    "registrationBody s = Inl e"
  shows "fst (book p s a) =
           Inr ((initialResult p)\<lparr>message := ''Registration failed'',
                  error := Some ''Could not complete the registration process''\<rparr>)"
proof -
  have "status info = Available \<or> status info = Waitlist"
    using scanRows_result[OF assms(5)] by (auto split: if_splits)
  then show ?thesis
    using assms
    by (auto simp: book_def bookTry_def initialize_def login_def navigateAndFilter_def
        findAndSelectSlot_def completeRegistration_def)
qed

section \<open>Properties of validation and of the commands\<close>

lemma ampm_not_whitespace:
  assumes "toLowerCase ap = ''am'' \<or> toLowerCase ap = ''pm''"
  shows "dropWhile isWhitespace ap = ap"
proof -
  obtain x xs where ap: "ap = x # xs" "toLowerChar x = CHR ''a'' \<or> toLowerChar x = CHR ''p''"
    using assms by (cases ap) (auto simp: toLowerCase_def)
  have "\<not> isWhitespace (toLowerChar x)" using ap(2) by (auto simp: isWhitespace_def)
  then have "\<not> isWhitespace x" by (simp add: isWhitespace_toLowerChar)
  then show ?thesis using ap(1) by simp
qed

lemma isValidTimeFormat_iff:
  "isValidTimeFormat t \<longleftrightarrow>
     (\<exists>h1 h2 m1 m2 ws ap.
        t = [h1, h2, CHR '':'', m1, m2] @ ws @ ap \<and>
        isDigit h1 \<and> isDigit h2 \<and> isDigit m1 \<and> isDigit m2 \<and> list_all isWhitespace ws \<and>
        (toLowerCase ap = ''am'' \<or> toLowerCase ap = ''pm''))"
proof
  assume v: "isValidTimeFormat t"
  then obtain h1 h2 c m1 m2 rest where t: "t = h1 # h2 # c # m1 # m2 # rest"
    by (cases t rule: isValidTimeFormat.cases) auto
  let ?ws = "takeWhile isWhitespace rest"
  let ?ap = "dropWhile isWhitespace rest"
  have "t = [h1, h2, CHR '':'', m1, m2] @ ?ws @ ?ap \<and>
        isDigit h1 \<and> isDigit h2 \<and> isDigit m1 \<and> isDigit m2 \<and> list_all isWhitespace ?ws \<and>
        (toLowerCase ?ap = ''am'' \<or> toLowerCase ?ap = ''pm'')"
    using v t by (auto simp: Let_def list_all_iff dest: set_takeWhileD)
  then show "\<exists>h1 h2 m1 m2 ws ap.
        t = [h1, h2, CHR '':'', m1, m2] @ ws @ ap \<and>
        isDigit h1 \<and> isDigit h2 \<and> isDigit m1 \<and> isDigit m2 \<and> list_all isWhitespace ws \<and>
        (toLowerCase ap = ''am'' \<or> toLowerCase ap = ''pm'')"
    by blast
next
  assume "\<exists>h1 h2 m1 m2 ws ap.
        t = [h1, h2, CHR '':'', m1, m2] @ ws @ ap \<and>
        isDigit h1 \<and> isDigit h2 \<and> isDigit m1 \<and> isDigit m2 \<and> list_all isWhitespace ws \<and>
        (toLowerCase ap = ''am'' \<or> toLowerCase ap = ''pm'')"
  then obtain h1 h2 m1 m2 ws ap where
    t: "t = [h1, h2, CHR '':'', m1, m2] @ ws @ ap" and
    d: "isDigit h1" "isDigit h2" "isDigit m1" "isDigit m2" and
    w: "list_all isWhitespace ws" and
    a: "toLowerCase ap = ''am'' \<or> toLowerCase ap = ''pm''"
    by blast
  have "dropWhile isWhitespace (ws @ ap) = dropWhile isWhitespace ap"
    using w by (intro dropWhile_append2) (simp add: list_all_iff)
  then have "dropWhile isWhitespace (ws @ ap) = ap" using ampm_not_whitespace[OF a] by simp
  then show "isValidTimeFormat t" using t d a by (simp add: Let_def)
qed

lemma validateBookingParams_empty:
  "validateBookingParams p = [] \<longleftrightarrow>
     BookingParams.activity p \<noteq> [] \<and> isValidDateFormat (BookingParams.date p) \<and>
     isValidTimeFormat (BookingParams.time p) \<and> BookingParams.location p \<noteq> []"
  by (auto simp: validateBookingParams_def)

lemma bookCommand_invalid:
  "validateBookingParams p \<noteq> [] \<Longrightarrow>
     bookCommand p c s = \<lparr>exitCode = 1, results = [], attempts = []\<rparr>"
  by (simp add: bookCommand_def Let_def)

lemma bookCommand_exit:
  "(exitCode (bookCommand p c s) = 0 \<longleftrightarrow>
      (\<exists>r. results (bookCommand p c s) = [r] \<and> success r)) \<and>
   (exitCode (bookCommand p c s) = 0 \<or> exitCode (bookCommand p c s) = 1)"
  by (auto simp: bookCommand_def Let_def split: option.splits prod.splits sum.splits)

lemma processBookings_length_aux:
  "processBookings siteAt i bs = (rs, as) \<Longrightarrow> length rs = length bs"
  by (induction bs arbitrary: i rs as)
     (auto simp: Let_def split: prod.splits sum.splits if_splits)

lemma processBookings_length:
  "length (fst (processBookings siteAt i bs)) = length bs"
  using processBookings_length_aux[of siteAt i bs] by (cases "processBookings siteAt i bs") simp

lemma bookAllCommand_exit:
  "(exitCode (bookAllCommand (Some cfg) siteAt) = 0 \<longleftrightarrow>
      list_all success (results (bookAllCommand (Some cfg) siteAt))) \<and>
   length (results (bookAllCommand (Some cfg) siteAt)) = length (enabledBookings cfg) \<and>
   (exitCode (bookAllCommand (Some cfg) siteAt) = 0 \<or>
    exitCode (bookAllCommand (Some cfg) siteAt) = 1)"
  using processBookings_length[of siteAt 0 "enabledBookings cfg"]
  by (auto simp: bookAllCommand_def Let_def split: prod.splits)

lemma processBookings_attempts_aux:
  "processBookings siteAt i bs = (rs, as) \<Longrightarrow>
     length as = length (filter (\<lambda>b. validateBookingParams b = []) bs)"
  by (induction bs arbitrary: i rs as)
     (auto simp: Let_def split: prod.splits sum.splits if_splits)

lemma bookAllCommand_attempts:
  "length (attempts (bookAllCommand (Some cfg) siteAt)) =
     length (filter (\<lambda>b. validateBookingParams b = []) (enabledBookings cfg))"
proof (cases "enabledBookings cfg = []")
  case True
  then show ?thesis by (simp add: bookAllCommand_def)
next
  case False
  obtain rs as where p: "processBookings siteAt 0 (enabledBookings cfg) = (rs, as)"
    by (cases "processBookings siteAt 0 (enabledBookings cfg)")
  then show ?thesis
    using False processBookings_attempts_aux[OF p] by (simp add: bookAllCommand_def Let_def)
qed

lemma bookCommand_acquired:
  "exitCode (bookCommand p c s) = 0 \<longleftrightarrow> c \<noteq> None \<and> acquired s p"
  by (auto simp: bookCommand_def acquired_def Let_def split: option.splits prod.splits sum.splits)

lemma processBookings_acquired:
  "processBookings siteAt i bs = (rs, as) \<Longrightarrow>
     list_all success rs = list_all (\<lambda>(j, b). acquired (siteAt j) b) (enumerate i bs)"
proof (induction bs arbitrary: i rs as)
  case Nil
  then show ?case by simp
next
  case (Cons b bs)
  obtain rs' as' where r: "processBookings siteAt (i + 1) bs = (rs', as')"
    by (cases "processBookings siteAt (i + 1) bs")
  have ih: "list_all success rs' =
              list_all (\<lambda>(j, b). acquired (siteAt j) b) (enumerate (Suc i) bs)"
    using Cons.IH[OF r] by simp
  show ?case
    using Cons.prems r ih success_initialResult[of b]
    by (auto simp: Let_def acquired_def initialResult_def split: prod.splits sum.splits if_splits)
qed

lemma bookAllCommand_acquired:
  "exitCode (bookAllCommand (Some cfg) siteAt) = 0 \<longleftrightarrow>
     list_all (\<lambda>(j, b). acquired (siteAt j) b) (enumerate 0 (enabledBookings cfg))"
proof (cases "enabledBookings cfg = []")
  case True
  then show ?thesis by (simp add: bookAllCommand_def)
next
  case False
  obtain rs as where p: "processBookings siteAt 0 (enabledBookings cfg) = (rs, as)"
    by (cases "processBookings siteAt 0 (enabledBookings cfg)")
  show ?thesis
    using False p processBookings_acquired[OF p] by (simp add: bookAllCommand_def Let_def)
qed

lemma runNow_exit:
  "fst (runNow fmt bwp sid now config s) =
     (if find (\<lambda>sch. ScheduleConfig.id sch = sid) SCHEDULES = None \<or> config = None then 1 else 0)"
  by (auto simp: runNow_def executeBooking_def Let_def split: option.splits sum.splits)

lemma catalogue_not_testOnly: "\<forall>sch \<in> set SCHEDULES. testOnly sch = None"
  by (simp add: SCHEDULES_def)

lemma find_in_set: "find P xs = Some x \<Longrightarrow> x \<in> set xs"
  by (induction xs) (auto split: if_splits)

lemma runNow_logged:
  assumes "find (\<lambda>sch. ScheduleConfig.id sch = sid) SCHEDULES = Some sch" "config = Some cfg"
    "bwp \<lparr>id = None, enabled = None, activity = ScheduleConfig.activity sch,
          date = fmt (getNextTargetDate sch now), time = ScheduleConfig.time sch,
          location = ScheduleConfig.location sch, preferWaitlist = Some False\<rparr>
       (releaseHour sch) (releaseMinute sch) = Inr r"
  shows "runNow fmt bwp sid now config s = (0, Some r)"
proof -
  have "testOnly sch = None"
    using find_in_set[OF assms(1)] catalogue_not_testOnly by blast
  then show ?thesis
    using assms by (simp add: runNow_def executeBooking_def Let_def truthy_def)
qed

lemma friday_found:
  "find (\<lambda>sch. ScheduleConfig.id sch = ''friday-monday-cloverdale'') SCHEDULES = Some (SCHEDULES ! 0)"
  by (simp add: SCHEDULES_def)

subsection \<open>Claims on slot resolution\<close>

text \<open>
  C4, as the code has it. The rows are scanned in document order. A row matches exactly
  when its text can be read and the text, lower-cased, white-space-collapsed and trimmed,
  has at least 30 characters and contains the lower-cased activity name, the normalised
  time label and the first word of the lower-cased location. Matching rows without a
  Register and without a Waitlist button are passed over. If the first row that is not
  passed over matches and has a Register button on which the calls succeed, that button is
  clicked, nothing else is, and the status is \<open>available\<close>. If no row matches, the status
  is \<open>not-found\<close> and nothing is clicked.
\<close>

theorem findAndSelectSlot_first_match:
  assumes "page a = Some pg" and "eventRows pg = Inr rows"
  shows "((\<forall>r \<in> set rows. \<not> rowMatches p r) \<longrightarrow>
            findAndSelectSlot p a = (Inr notFoundInfo, a)) \<and>
         (\<forall>pre r post b w.
            rows = pre @ r # post \<and> (\<forall>r' \<in> set pre. passedOver p r') \<and> rowMatches p r \<and>
            registerBtn r = Inr (Some b) \<and> waitlistBtn r = Inr w \<and> workingButton b \<longrightarrow>
            findAndSelectSlot p a =
              (Inr \<lparr>status = Available, spotsLeft = None, elementRef = None,
                     buttonRef = Some ''register''\<rparr>,
               a\<lparr>clicks := clicks a @ [(length pre, RegisterControl)]\<rparr>)) \<and>
         (\<forall>r. rowMatches p r \<longleftrightarrow>
            (\<exists>t. textContent r = Inr t \<and> 30 \<le> length (rowTextOf t) \<and>
               (\<exists>u v. rowTextOf t = u @ toLowerCase (BookingParams.activity p) @ v) \<and>
               (\<exists>u v. rowTextOf t =
                  u @ trim (collapseWs (toLowerCase (BookingParams.time p))) @ v) \<and>
               (\<exists>u v. rowTextOf t =
                  u @ firstWord (toLowerCase (BookingParams.location p)) @ v)))"
proof -
  have none: "(\<forall>r \<in> set rows. \<not> rowMatches p r) \<longrightarrow>
                findAndSelectSlot p a = (Inr notFoundInfo, a)"
    using findAndSelectSlot_no_match[OF assms] by blast
  have reg: "findAndSelectSlot p a =
              (Inr \<lparr>status = Available, spotsLeft = None, elementRef = None,
                     buttonRef = Some ''register''\<rparr>,
               a\<lparr>clicks := clicks a @ [(length pre, RegisterControl)]\<rparr>)"
    if "rows = pre @ r # post" "\<forall>r' \<in> set pre. passedOver p r'" "rowMatches p r"
      "registerBtn r = Inr (Some b)" "waitlistBtn r = Inr w" "workingButton b"
    for pre r post b w
    using findAndSelectSlot_register[OF assms(1) _ that(2,3,4,5,6)] assms(2) that(1) by simp
  show ?thesis using none reg rowMatches_iff[of p] by blast
qed

text \<open>
  The badminton request of the specification against a listing of two rows, a short row
  for another activity and the requested session with a Register button: the first row is
  passed over, the second matches, its Register button is clicked and the status is
  \<open>available\<close>. Against the short row alone the status is \<open>not-found\<close>.
\<close>

theorem findAndSelectSlot_first_match_witness:
  "passedOver badmintonRequest yogaRow \<and> rowMatches badmintonRequest badmintonRow \<and>
   findAndSelectSlot badmintonRequest
       (newAutomation\<lparr>page := Some \<lparr>eventRows = Inr [yogaRow, badmintonRow]\<rparr>\<rparr>) =
     (Inr \<lparr>status = Available, spotsLeft = None, elementRef = None,
            buttonRef = Some ''register''\<rparr>,
      newAutomation\<lparr>page := Some \<lparr>eventRows = Inr [yogaRow, badmintonRow]\<rparr>,
                     clicks := [(1, RegisterControl)]\<rparr>) \<and>
   \<not> rowMatches badmintonRequest yogaRow \<and>
   findAndSelectSlot badmintonRequest
       (newAutomation\<lparr>page := Some \<lparr>eventRows = Inr [yogaRow]\<rparr>\<rparr>) =
     (Inr notFoundInfo, newAutomation\<lparr>page := Some \<lparr>eventRows = Inr [yogaRow]\<rparr>\<rparr>)"
proof -
  let ?a2 = "newAutomation\<lparr>page := Some \<lparr>eventRows = Inr [yogaRow, badmintonRow]\<rparr>\<rparr>"
  let ?a1 = "newAutomation\<lparr>page := Some \<lparr>eventRows = Inr [yogaRow]\<rparr>\<rparr>"
  have y: "\<not> rowMatches badmintonRequest yogaRow" by code_simp
  have py: "passedOver badmintonRequest yogaRow" by code_simp
  have m: "rowMatches badmintonRequest badmintonRow" by code_simp
  have b: "registerBtn badmintonRow = Inr (Some (okButton ''Register for Drop In Badminton - Adult''))"
    "waitlistBtn badmintonRow = Inr None"
    "workingButton (okButton ''Register for Drop In Badminton - Adult'')"
    by (simp_all add: badmintonRow_def workingButton_def okButton_def)
  have pg2: "page ?a2 = Some \<lparr>eventRows = Inr [yogaRow, badmintonRow]\<rparr>"
    "eventRows \<lparr>eventRows = Inr [yogaRow, badmintonRow]\<rparr> = Inr [yogaRow, badmintonRow]"
    by simp_all
  have pg1: "page ?a1 = Some \<lparr>eventRows = Inr [yogaRow]\<rparr>"
    "eventRows \<lparr>eventRows = Inr [yogaRow]\<rparr> = Inr [yogaRow]"
    by simp_all
  note t2 = findAndSelectSlot_first_match[OF pg2, of badmintonRequest]
  note t1 = findAndSelectSlot_first_match[OF pg1, of badmintonRequest]
  have "[yogaRow, badmintonRow] = [yogaRow] @ badmintonRow # [] \<and>
        (\<forall>r' \<in> set [yogaRow]. passedOver badmintonRequest r') \<and>
        rowMatches badmintonRequest badmintonRow \<and>
        registerBtn badmintonRow =
          Inr (Some (okButton ''Register for Drop In Badminton - Adult'')) \<and>
        waitlistBtn badmintonRow = Inr None \<and>
        workingButton (okButton ''Register for Drop In Badminton - Adult'')"
    using py m b by simp
  then have two: "findAndSelectSlot badmintonRequest ?a2 =
     (Inr \<lparr>status = Available, spotsLeft = None, elementRef = None,
            buttonRef = Some ''register''\<rparr>,
      ?a2\<lparr>clicks := clicks ?a2 @ [(length [yogaRow], RegisterControl)]\<rparr>)"
    using t2 by blast
  have "\<forall>r \<in> set [yogaRow]. \<not> rowMatches badmintonRequest r" using y by simp
  then have one: "findAndSelectSlot badmintonRequest ?a1 = (Inr notFoundInfo, ?a1)"
    using t1 by blast
  show ?thesis using y py m one two by (simp add: newAutomation_def)
qed

text \<open>
  C4 as the specification states it fails on a short row: the text of the row contains the
  activity name, the time label and the first word of the location of the request, and
  the row has a Register button, yet the status is \<open>not-found\<close> and nothing is clicked,
  because the text has fewer than 30 characters.
\<close>

theorem findAndSelectSlot_short_row_counterexample:
  "textContent yogaRow = Inr (Some ''Yoga 08:15 am Gym'') \<and>
   includesStr ''Yoga 08:15 am Gym'' (BookingParams.activity yogaRequest) \<and>
   includesStr ''Yoga 08:15 am Gym'' (BookingParams.time yogaRequest) \<and>
   includesStr ''Yoga 08:15 am Gym'' (firstWord (BookingParams.location yogaRequest)) \<and>
   registerBtn yogaRow = Inr (Some (okButton ''Register for Yoga'')) \<and>
   findAndSelectSlot yogaRequest (newAutomation\<lparr>page := Some \<lparr>eventRows = Inr [yogaRow]\<rparr>\<rparr>) =
     (Inr notFoundInfo, newAutomation\<lparr>page := Some \<lparr>eventRows = Inr [yogaRow]\<rparr>\<rparr>)"
  by code_simp

text \<open>
  C10. Whatever the request and the page, \<open>findAndSelectSlot\<close> returns, when the page is
  set, a slot whose status is \<open>available\<close>, \<open>waitlist\<close> or \<open>not-found\<close>, never \<open>full\<close>.
  Every control it clicks belongs to a row that matches, so to a row whose normalised text
  has at least 30 characters; a row with a shorter text is skipped whatever it contains.
  The text the three tests read is lower-cased, white-space-collapsed and trimmed, and the
  result does not depend on the letter case of the activity, the time or the location of
  the request, nor on the letter case of the text of a row.
\<close>

theorem findAndSelectSlot_never_full:
  "(\<forall>info. fst (findAndSelectSlot p a) = Inr info \<longrightarrow>
      status info \<noteq> Full \<and>
      (status info = Available \<or> status info = Waitlist \<or> status info = NotFound)) \<and>
   (page a \<noteq> None \<longrightarrow> (\<exists>info. fst (findAndSelectSlot p a) = Inr info)) \<and>
   (\<forall>pg rows. page a = Some pg \<and> eventRows pg = Inr rows \<longrightarrow>
      (\<exists>cs. clicks (snd (findAndSelectSlot p a)) = clicks a @ cs \<and>
         (\<forall>j c. (j, c) \<in> set cs \<longrightarrow> j < length rows \<and> rowMatches p (rows ! j)))) \<and>
   (\<forall>r t. textContent r = Inr t \<and> length (rowTextOf t) < 30 \<longrightarrow>
      \<not> rowMatches p r \<and>
      (\<forall>A T L pw i rs. scanRows A T L pw i (r # rs) = scanRows A T L pw (i + 1) rs)) \<and>
   (\<forall>t. lowerCased (rowTextOf t) \<and> wsCollapsed (rowTextOf t) \<and> trimmed (rowTextOf t)) \<and>
   (\<forall>p'. toLowerCase (BookingParams.activity p') = toLowerCase (BookingParams.activity p) \<and>
         toLowerCase (BookingParams.time p') = toLowerCase (BookingParams.time p) \<and>
         toLowerCase (BookingParams.location p') = toLowerCase (BookingParams.location p) \<and>
         preferWaitlist p' = preferWaitlist p \<longrightarrow>
         findAndSelectSlot p' a = findAndSelectSlot p a) \<and>
   (\<forall>t t'. toLowerCase t = toLowerCase t' \<longrightarrow> rowTextOf (Some t) = rowTextOf (Some t'))"
proof -
  have st: "\<forall>info. fst (findAndSelectSlot p a) = Inr info \<longrightarrow>
      status info \<noteq> Full \<and>
      (status info = Available \<or> status info = Waitlist \<or> status info = NotFound)"
    using findAndSelectSlot_status[of p a] by auto
  have ret: "page a \<noteq> None \<longrightarrow> (\<exists>info. fst (findAndSelectSlot p a) = Inr info)"
    using findAndSelectSlot_returns[of a _ p] by auto
  have cl: "\<forall>pg rows. page a = Some pg \<and> eventRows pg = Inr rows \<longrightarrow>
      (\<exists>cs. clicks (snd (findAndSelectSlot p a)) = clicks a @ cs \<and>
         (\<forall>j c. (j, c) \<in> set cs \<longrightarrow> j < length rows \<and> rowMatches p (rows ! j)))"
    using findAndSelectSlot_clicks[of a _ _ p] by blast
  have sh: "\<forall>r t. textContent r = Inr t \<and> length (rowTextOf t) < 30 \<longrightarrow>
      \<not> rowMatches p r \<and>
      (\<forall>A T L pw i rs. scanRows A T L pw i (r # rs) = scanRows A T L pw (i + 1) rs)"
    using short_row_skipped by blast
  have ci: "\<forall>p'. toLowerCase (BookingParams.activity p') = toLowerCase (BookingParams.activity p) \<and>
         toLowerCase (BookingParams.time p') = toLowerCase (BookingParams.time p) \<and>
         toLowerCase (BookingParams.location p') = toLowerCase (BookingParams.location p) \<and>
         preferWaitlist p' = preferWaitlist p \<longrightarrow>
         findAndSelectSlot p' a = findAndSelectSlot p a"
    using findAndSelectSlot_case_insensitive by blast
  have rt: "\<forall>t t'. toLowerCase t = toLowerCase t' \<longrightarrow> rowTextOf (Some t) = rowTextOf (Some t')"
    by (simp add: rowTextOf_def)
  show ?thesis using st ret cl sh ci rt rowTextOf_normal by blast
qed

text \<open>
  C10 at a concrete input: the badminton request against the listing of the short row and
  the requested session. The page is set and the status returned is not \<open>full\<close>; the one
  click is on row 1, which matches; the short row has a text of fewer than 30 characters
  and does not match; the request in capital letters gives the same result, and a row
  text in capital letters has the same normal form.
\<close>

theorem findAndSelectSlot_never_full_witness:
  "page (newAutomation\<lparr>page := Some \<lparr>eventRows = Inr [yogaRow, badmintonRow]\<rparr>\<rparr>) \<noteq> None \<and>
   (\<exists>info. fst (findAndSelectSlot badmintonRequest
                  (newAutomation\<lparr>page := Some \<lparr>eventRows = Inr [yogaRow, badmintonRow]\<rparr>\<rparr>))
             = Inr info \<and> status info \<noteq> Full) \<and>
   clicks (snd (findAndSelectSlot badmintonRequest
                  (newAutomation\<lparr>page := Some \<lparr>eventRows = Inr [yogaRow, badmintonRow]\<rparr>\<rparr>)))
     = [(1, RegisterControl)] \<and>
   rowMatches badmintonRequest ([yogaRow, badmintonRow] ! 1) \<and>
   textContent yogaRow = Inr (Some ''Yoga 08:15 am Gym'') \<and>
   length (rowTextOf (Some ''Yoga 08:15 am Gym'')) < 30 \<and>
   \<not> rowMatches badmintonRequest yogaRow \<and>
   findAndSelectSlot (badmintonRequest\<lparr>BookingParams.activity := ''DROP IN BADMINTON - ADULT''\<rparr>)
       (newAutomation\<lparr>page := Some \<lparr>eventRows = Inr [yogaRow, badmintonRow]\<rparr>\<rparr>) =
     findAndSelectSlot badmintonRequest
       (newAutomation\<lparr>page := Some \<lparr>eventRows = Inr [yogaRow, badmintonRow]\<rparr>\<rparr>) \<and>
   rowTextOf (Some ''YOGA 08:15 AM GYM'') = rowTextOf (Some ''Yoga 08:15 am Gym'')"
proof -
  let ?a = "newAutomation\<lparr>page := Some \<lparr>eventRows = Inr [yogaRow, badmintonRow]\<rparr>\<rparr>"
  let ?p' = "badmintonRequest\<lparr>BookingParams.activity := ''DROP IN BADMINTON - ADULT''\<rparr>"
  note t = findAndSelectSlot_never_full[of badmintonRequest ?a]
  have pg: "page ?a \<noteq> None" by simp
  have pr: "page ?a = Some \<lparr>eventRows = Inr [yogaRow, badmintonRow]\<rparr> \<and>
            eventRows \<lparr>eventRows = Inr [yogaRow, badmintonRow]\<rparr> = Inr [yogaRow, badmintonRow]"
    by simp
  have ca: "clicks ?a = []" by (simp add: newAutomation_def)
  have tx: "textContent yogaRow = Inr (Some ''Yoga 08:15 am Gym'')"
    by (simp add: yogaRow_def)
  have len: "length (rowTextOf (Some ''Yoga 08:15 am Gym'')) < 30" by code_simp
  have lc: "toLowerCase (BookingParams.activity ?p') = toLowerCase (BookingParams.activity badmintonRequest)"
    by code_simp
  have same: "toLowerCase (BookingParams.time ?p') = toLowerCase (BookingParams.time badmintonRequest)"
    "toLowerCase (BookingParams.location ?p') = toLowerCase (BookingParams.location badmintonRequest)"
    "preferWaitlist ?p' = preferWaitlist badmintonRequest"
    by simp_all
  have up: "toLowerCase ''YOGA 08:15 AM GYM'' = toLowerCase ''Yoga 08:15 am Gym''" by code_simp
  have ev: "clicks (snd (findAndSelectSlot badmintonRequest ?a)) = [(1, RegisterControl)]"
    by code_simp
  have r1: "\<exists>info. fst (findAndSelectSlot badmintonRequest ?a) = Inr info \<and> status info \<noteq> Full"
    using t pg by blast
  obtain cs where cs: "clicks (snd (findAndSelectSlot badmintonRequest ?a)) = clicks ?a @ cs"
    "\<forall>j c. (j, c) \<in> set cs \<longrightarrow>
       j < length [yogaRow, badmintonRow] \<and> rowMatches badmintonRequest ([yogaRow, badmintonRow] ! j)"
    using t pr by blast
  have "cs = [(1, RegisterControl)]" using cs(1) ev ca by simp
  then have "(1, RegisterControl) \<in> set cs" by simp
  then have r0: "rowMatches badmintonRequest ([yogaRow, badmintonRow] ! 1)" using cs(2) by blast
  have r2: "\<not> rowMatches badmintonRequest yogaRow"
    using t tx len by blast
  have r3: "findAndSelectSlot ?p' ?a = findAndSelectSlot badmintonRequest ?a"
    using t lc same by blast
  have r4: "rowTextOf (Some ''YOGA 08:15 AM GYM'') = rowTextOf (Some ''Yoga 08:15 am Gym'')"
    using t up by blast
  show ?thesis using pg r1 ev r0 tx len r2 r3 r4 by blast
qed

subsection \<open>Claims on the booking attempt\<close>

text \<open>
  C1, evaluated at the end-to-end scenario of the specification: the basketball request
  with the waitlist not accepted, every stage running without an error, and the requested
  session listed with no spots left and a Waitlist button only. Slot resolution clicks
  nothing, but it reports the status \<open>waitlist\<close>, not \<open>full\<close>; the attempt therefore goes on
  to the registration stage, and its result is a success with the message "Successfully
  added to waitlist" and no error, not a failure with the message "Slot is full".
\<close>

theorem book_full_slot_scenario:
  "findAndSelectSlot basketballRequest
       (newAutomation\<lparr>page := Some \<lparr>eventRows = Inr [basketballFullRow]\<rparr>\<rparr>) =
     (Inr \<lparr>status = Waitlist, spotsLeft = None, elementRef = None, buttonRef = None\<rparr>,
      newAutomation\<lparr>page := Some \<lparr>eventRows = Inr [basketballFullRow]\<rparr>\<rparr>) \<and>
   book basketballRequest (siteShowing [basketballFullRow]) newAutomation =
     (Inr \<lparr>success = True, bookingId = None, activity = ''Drop In Basketball - Adult'',
            date = ''31-Jan-2026'', time = ''08:15 am'',
            location = ''Guildford Recreation Centre'',
            message = ''Successfully added to waitlist'', error = None,
            waitlisted = Some True\<rparr>,
      \<lparr>browser = False, bctx = False, page = None, clicks = [],
        closeCalls = [PageHandle, ContextHandle, BrowserHandle], cleanupCalls = 1\<rparr>)"
  by code_simp

text \<open>
  C5. Every call of \<open>book\<close>, whatever the request, the site and the stage at which an
  error is thrown, calls \<open>cleanup\<close> exactly once and leaves the browser, the context and
  the page unset; on an automation object that is new, \<open>close()\<close> is called exactly once
  on each handle that \<open>initialize\<close> had opened, and on no other.
\<close>

theorem book_cleanup_once:
  "cleanupCalls (snd (book p s a)) = cleanupCalls a + 1 \<and>
   \<not> browser (snd (book p s a)) \<and> \<not> bctx (snd (book p s a)) \<and>
   page (snd (book p s a)) = None \<and>
   closeCalls (snd (book p s newAutomation)) =
     (case initResult s of
        InitOk \<Rightarrow> [PageHandle, ContextHandle, BrowserHandle]
      | LaunchThrows e \<Rightarrow> []
      | NewContextThrows e \<Rightarrow> [BrowserHandle]
      | NewPageThrows e \<Rightarrow> [ContextHandle, BrowserHandle])"
proof -
  obtain x a' where t: "bookTry p s (initialResult p) a = (x, a')"
    by (cases "bookTry p s (initialResult p) a")
  obtain y n' where n: "bookTry p s (initialResult p) newAutomation = (y, n')"
    by (cases "bookTry p s (initialResult p) newAutomation")
  have first: "cleanupCalls (snd (book p s a)) = cleanupCalls a + 1"
    "\<not> browser (snd (book p s a))" "\<not> bctx (snd (book p s a))" "page (snd (book p s a)) = None"
    using bookTry_fields[OF t] t by (simp_all add: book_state cleanup_def)
  have "closeCalls (snd (book p s newAutomation)) =
          (if page (snd (initialize s newAutomation)) \<noteq> None then [PageHandle] else [])
          @ (if bctx (snd (initialize s newAutomation)) then [ContextHandle] else [])
          @ (if browser (snd (initialize s newAutomation)) then [BrowserHandle] else [])"
    using bookTry_fields[OF n] n by (simp add: book_state cleanup_def newAutomation_def)
  then have second: "closeCalls (snd (book p s newAutomation)) =
     (case initResult s of
        InitOk \<Rightarrow> [PageHandle, ContextHandle, BrowserHandle]
      | LaunchThrows e \<Rightarrow> []
      | NewContextThrows e \<Rightarrow> [BrowserHandle]
      | NewPageThrows e \<Rightarrow> [ContextHandle, BrowserHandle])"
    by (simp add: initialize_def newAutomation_def split: initOutcome.splits)
  show ?thesis using first second by simp
qed

text \<open>
  C5 at two inputs: an attempt whose \<open>newPage\<close> throws, and the successful badminton
  booking.
\<close>

theorem book_cleanup_once_witness:
  "cleanupCalls (snd (book badmintonRequest
      ((siteShowing [badmintonRow])\<lparr>initResult := NewPageThrows ''no page''\<rparr>) newAutomation)) = 1 \<and>
   closeCalls (snd (book badmintonRequest
      ((siteShowing [badmintonRow])\<lparr>initResult := NewPageThrows ''no page''\<rparr>) newAutomation))
     = [ContextHandle, BrowserHandle] \<and>
   cleanupCalls (snd (book badmintonRequest (siteShowing [badmintonRow]) newAutomation)) = 1 \<and>
   closeCalls (snd (book badmintonRequest (siteShowing [badmintonRow]) newAutomation))
     = [PageHandle, ContextHandle, BrowserHandle]"
  using book_cleanup_once[of badmintonRequest
      "(siteShowing [badmintonRow])\<lparr>initResult := NewPageThrows ''no page''\<rparr>" newAutomation]
    book_cleanup_once[of badmintonRequest "siteShowing [badmintonRow]" newAutomation]
  by (simp add: siteShowing_def newAutomation_def)

text \<open>
  C6, as the code has it. \<open>book\<close> always returns one result to its caller, never an error,
  and a result reports success only if no stage threw. An error thrown by \<open>initialize\<close>
  reaches the \<open>catch\<close> of \<open>book\<close> and gives the result "Booking failed" with the message
  of the error. An error thrown inside \<open>login\<close>, \<open>navigateAndFilter\<close>, the scan of
  \<open>findAndSelectSlot\<close> or \<open>completeRegistration\<close> is caught inside that stage, and the
  result is the failure of the stage, with its fixed message and error text ("Login
  failed", "Failed to apply filters", "Slot not found", "Registration failed"), whatever
  the message of the error.
\<close>

theorem book_never_throws:
  "\<exists>r. fst (book p s a) = Inr r \<and>
       (\<forall>e. fst (initialize s a) = Inl e \<longrightarrow>
          r = (initialResult p)\<lparr>message := ''Booking failed'', error := Some e\<rparr>) \<and>
       (\<forall>e. initResult s = InitOk \<and> loginBody s = Inl e \<longrightarrow>
          r = (initialResult p)\<lparr>message := ''Login failed'',
                 error := Some ''Could not login to Surrey booking system''\<rparr>) \<and>
       (\<forall>e. initResult s = InitOk \<and> loginBody s = Inr True \<and> filterBody s = Inl e \<longrightarrow>
          r = (initialResult p)\<lparr>message := ''Failed to apply filters'',
                 error := Some ''Could not navigate to booking page or apply filters''\<rparr>) \<and>
       (\<forall>e. initResult s = InitOk \<and> loginBody s = Inr True \<and> filterBody s = Inr () \<and>
            (eventRows (listing s) = Inl e \<or>
             (\<exists>rows. eventRows (listing s) = Inr rows \<and>
                scanRows (toLowerCase (BookingParams.activity p))
                  (trim (collapseWs (toLowerCase (BookingParams.time p))))
                  (toLowerCase (BookingParams.location p)) (truthy (preferWaitlist p)) 0 rows
                = Inl e)) \<longrightarrow>
          r = (initialResult p)\<lparr>message := ''Slot not found'',
                 error := Some (''Could not find slot for '' @ BookingParams.activity p
                    @ '' at '' @ BookingParams.time p @ '' - '' @ BookingParams.location p)\<rparr>) \<and>
       (\<forall>e rows info cs.
            initResult s = InitOk \<and> loginBody s = Inr True \<and> filterBody s = Inr () \<and>
            eventRows (listing s) = Inr rows \<and>
            scanRows (toLowerCase (BookingParams.activity p))
              (trim (collapseWs (toLowerCase (BookingParams.time p))))
              (toLowerCase (BookingParams.location p)) (truthy (preferWaitlist p)) 0 rows
              = Inr (Some info, cs) \<and>
            registrationBody s = Inl e \<longrightarrow>
          r = (initialResult p)\<lparr>message := ''Registration failed'',
                 error := Some ''Could not complete the registration process''\<rparr>) \<and>
       (success r \<longrightarrow>
          initResult s = InitOk \<and> loginBody s = Inr True \<and> filterBody s = Inr () \<and>
          registrationBody s = Inr () \<and>
          (\<exists>rows info cs. eventRows (listing s) = Inr rows \<and>
             scanRows (toLowerCase (BookingParams.activity p))
               (trim (collapseWs (toLowerCase (BookingParams.time p))))
               (toLowerCase (BookingParams.location p)) (truthy (preferWaitlist p)) 0 rows
             = Inr (Some info, cs)))"
proof -
  obtain r where r: "fst (book p s a) = Inr r" using book_returns by blast
  have thrown: "\<forall>e. fst (initialize s a) = Inl e \<longrightarrow>
          r = (initialResult p)\<lparr>message := ''Booking failed'', error := Some e\<rparr>"
    using book_init_throws[of s a _ p] r by auto
  have lg: "\<forall>e. initResult s = InitOk \<and> loginBody s = Inl e \<longrightarrow>
          r = (initialResult p)\<lparr>message := ''Login failed'',
                 error := Some ''Could not login to Surrey booking system''\<rparr>"
    using book_login_throws[of s _ p a] r by auto
  have fl: "\<forall>e. initResult s = InitOk \<and> loginBody s = Inr True \<and> filterBody s = Inl e \<longrightarrow>
          r = (initialResult p)\<lparr>message := ''Failed to apply filters'',
                 error := Some ''Could not navigate to booking page or apply filters''\<rparr>"
    using book_filter_throws[of s _ p a] r by auto
  have sc: "\<forall>e. initResult s = InitOk \<and> loginBody s = Inr True \<and> filterBody s = Inr () \<and>
            (eventRows (listing s) = Inl e \<or>
             (\<exists>rows. eventRows (listing s) = Inr rows \<and>
                scanRows (toLowerCase (BookingParams.activity p))
                  (trim (collapseWs (toLowerCase (BookingParams.time p))))
                  (toLowerCase (BookingParams.location p)) (truthy (preferWaitlist p)) 0 rows
                = Inl e)) \<longrightarrow>
          r = (initialResult p)\<lparr>message := ''Slot not found'',
                 error := Some (''Could not find slot for '' @ BookingParams.activity p
                    @ '' at '' @ BookingParams.time p @ '' - '' @ BookingParams.location p)\<rparr>"
  proof (intro allI impI)
    fix e
    assume h: "initResult s = InitOk \<and> loginBody s = Inr True \<and> filterBody s = Inr () \<and>
            (eventRows (listing s) = Inl e \<or>
             (\<exists>rows. eventRows (listing s) = Inr rows \<and>
                scanRows (toLowerCase (BookingParams.activity p))
                  (trim (collapseWs (toLowerCase (BookingParams.time p))))
                  (toLowerCase (BookingParams.location p)) (truthy (preferWaitlist p)) 0 rows
                = Inl e))"
    have "fst (book p s a) =
           Inr ((initialResult p)\<lparr>message := ''Slot not found'',
                  error := Some (''Could not find slot for '' @ BookingParams.activity p
                     @ '' at '' @ BookingParams.time p @ '' - '' @ BookingParams.location p)\<rparr>)"
      using h by (intro book_scan_throws[of s e p a]) simp_all
    then show "r = (initialResult p)\<lparr>message := ''Slot not found'',
                 error := Some (''Could not find slot for '' @ BookingParams.activity p
                    @ '' at '' @ BookingParams.time p @ '' - '' @ BookingParams.location p)\<rparr>"
      using r by simp
  qed
  have rg: "\<forall>e rows info cs.
            initResult s = InitOk \<and> loginBody s = Inr True \<and> filterBody s = Inr () \<and>
            eventRows (listing s) = Inr rows \<and>
            scanRows (toLowerCase (BookingParams.activity p))
              (trim (collapseWs (toLowerCase (BookingParams.time p))))
              (toLowerCase (BookingParams.location p)) (truthy (preferWaitlist p)) 0 rows
              = Inr (Some info, cs) \<and>
            registrationBody s = Inl e \<longrightarrow>
          r = (initialResult p)\<lparr>message := ''Registration failed'',
                 error := Some ''Could not complete the registration process''\<rparr>"
  proof (intro allI impI)
    fix e rows info cs
    assume h: "initResult s = InitOk \<and> loginBody s = Inr True \<and> filterBody s = Inr () \<and>
            eventRows (listing s) = Inr rows \<and>
            scanRows (toLowerCase (BookingParams.activity p))
              (trim (collapseWs (toLowerCase (BookingParams.time p))))
              (toLowerCase (BookingParams.location p)) (truthy (preferWaitlist p)) 0 rows
              = Inr (Some info, cs) \<and>
            registrationBody s = Inl e"
    have "fst (book p s a) =
           Inr ((initialResult p)\<lparr>message := ''Registration failed'',
                  error := Some ''Could not complete the registration process''\<rparr>)"
      using h by (intro book_registration_throws[of s rows p info cs e a]) simp_all
    then show "r = (initialResult p)\<lparr>message := ''Registration failed'',
                 error := Some ''Could not complete the registration process''\<rparr>"
      using r by simp
  qed
  have ok: "initResult s = InitOk \<and> loginBody s = Inr True \<and> filterBody s = Inr () \<and>
          registrationBody s = Inr () \<and>
          (\<exists>rows info cs. eventRows (listing s) = Inr rows \<and>
             scanRows (toLowerCase (BookingParams.activity p))
               (trim (collapseWs (toLowerCase (BookingParams.time p))))
               (toLowerCase (BookingParams.location p)) (truthy (preferWaitlist p)) 0 rows
             = Inr (Some info, cs))" if s: "success r"
  proof -
    obtain x a' where t: "bookTry p s (initialResult p) a = (x, a')"
      by (cases "bookTry p s (initialResult p) a")
    have "x = Inr r"
      using r t s success_initialResult[of p]
      by (cases x) (auto simp: book_def initialResult_def)
    then have b: "initResult s = InitOk \<and> loginBody s = Inr True \<and> filterBody s = Inr () \<and>
         registrationBody s = Inr () \<and>
         (\<exists>info. fst (findAndSelectSlot p (snd (initialize s a))) = Inr info \<and>
                 status info \<noteq> NotFound)"
      using bookTry_success[of p s a r a'] t s by simp
    then obtain info where i: "fst (findAndSelectSlot p (snd (initialize s a))) = Inr info"
      "status info \<noteq> NotFound" by blast
    have "page (snd (initialize s a)) = Some (listing s)"
      using b initialize_ok_page by blast
    then show ?thesis using findAndSelectSlot_found[OF _ i] b by blast
  qed
  show ?thesis
    apply (rule exI[of _ r])
    using r thrown lg fl sc rg ok by blast
qed

text \<open>
  C6 at three attempts for the badminton request. When the browser launch throws, the
  caller gets the result "Booking failed" carrying the message of the error. When the
  body of \<open>login\<close> throws, the caller gets the result "Login failed" with the fixed error
  text. Against a listing with the requested session and no error the result is a
  success, and then no stage threw.
\<close>

theorem book_never_throws_witness:
  "fst (initialize ((siteShowing [badmintonRow])\<lparr>initResult := LaunchThrows ''no browser''\<rparr>)
         newAutomation) = Inl ''no browser'' \<and>
   fst (book badmintonRequest
         ((siteShowing [badmintonRow])\<lparr>initResult := LaunchThrows ''no browser''\<rparr>) newAutomation)
     = Inr \<lparr>success = False, bookingId = None, activity = ''Drop In Badminton - Adult'',
            date = ''03-Feb-2026'', time = ''8:15 am'',
            location = ''Cloverdale Recreation Centre'', message = ''Booking failed'',
            error = Some ''no browser'', waitlisted = None\<rparr> \<and>
   loginBody ((siteShowing [badmintonRow])\<lparr>loginBody := Inl ''page crashed''\<rparr>)
     = Inl ''page crashed'' \<and>
   fst (book badmintonRequest
         ((siteShowing [badmintonRow])\<lparr>loginBody := Inl ''page crashed''\<rparr>) newAutomation)
     = Inr \<lparr>success = False, bookingId = None, activity = ''Drop In Badminton - Adult'',
            date = ''03-Feb-2026'', time = ''8:15 am'',
            location = ''Cloverdale Recreation Centre'', message = ''Login failed'',
            error = Some ''Could not login to Surrey booking system'', waitlisted = None\<rparr> \<and>
   (\<exists>r. fst (book badmintonRequest (siteShowing [badmintonRow]) newAutomation) = Inr r \<and>
        success r) \<and>
   initResult (siteShowing [badmintonRow]) = InitOk \<and>
   loginBody (siteShowing [badmintonRow]) = Inr True \<and>
   registrationBody (siteShowing [badmintonRow]) = Inr ()"
proof -
  let ?s = "(siteShowing [badmintonRow])\<lparr>initResult := LaunchThrows ''no browser''\<rparr>"
  let ?l = "(siteShowing [badmintonRow])\<lparr>loginBody := Inl ''page crashed''\<rparr>"
  have i: "fst (initialize ?s newAutomation) = Inl ''no browser''"
    by (simp add: initialize_def siteShowing_def)
  obtain r where r: "fst (book badmintonRequest ?s newAutomation) = Inr r"
    "\<forall>e. fst (initialize ?s newAutomation) = Inl e \<longrightarrow>
       r = (initialResult badmintonRequest)\<lparr>message := ''Booking failed'', error := Some e\<rparr>"
    using book_never_throws[of badmintonRequest ?s newAutomation]
    by (elim exE conjE) (rule that)
  then have "r = (initialResult badmintonRequest)\<lparr>message := ''Booking failed'',
                     error := Some ''no browser''\<rparr>"
    using i by blast
  then have first: "fst (book badmintonRequest ?s newAutomation)
     = Inr \<lparr>success = False, bookingId = None, activity = ''Drop In Badminton - Adult'',
            date = ''03-Feb-2026'', time = ''8:15 am'',
            location = ''Cloverdale Recreation Centre'', message = ''Booking failed'',
            error = Some ''no browser'', waitlisted = None\<rparr>"
    using r(1) by (simp add: initialResult_def badmintonRequest_def)
  have l: "initResult ?l = InitOk \<and> loginBody ?l = Inl ''page crashed''"
    by (simp add: siteShowing_def)
  obtain q where q: "fst (book badmintonRequest ?l newAutomation) = Inr q"
    "\<forall>e. initResult ?l = InitOk \<and> loginBody ?l = Inl e \<longrightarrow>
       q = (initialResult badmintonRequest)\<lparr>message := ''Login failed'',
              error := Some ''Could not login to Surrey booking system''\<rparr>"
    using book_never_throws[of badmintonRequest ?l newAutomation]
    by (elim exE conjE) (rule that)
  then have "q = (initialResult badmintonRequest)\<lparr>message := ''Login failed'',
              error := Some ''Could not login to Surrey booking system''\<rparr>"
    using l by blast
  then have third: "fst (book badmintonRequest ?l newAutomation)
     = Inr \<lparr>success = False, bookingId = None, activity = ''Drop In Badminton - Adult'',
            date = ''03-Feb-2026'', time = ''8:15 am'',
            location = ''Cloverdale Recreation Centre'', message = ''Login failed'',
            error = Some ''Could not login to Surrey booking system'', waitlisted = None\<rparr>"
    using q(1) by (simp add: initialResult_def badmintonRequest_def)
  have ok: "map_sum (\<lambda>e. e) success (fst (book badmintonRequest (siteShowing [badmintonRow]) newAutomation))
              = Inr True"
    by code_simp
  obtain r' where r': "fst (book badmintonRequest (siteShowing [badmintonRow]) newAutomation) = Inr r'"
    "success r' \<longrightarrow>
       initResult (siteShowing [badmintonRow]) = InitOk \<and>
       loginBody (siteShowing [badmintonRow]) = Inr True \<and>
       filterBody (siteShowing [badmintonRow]) = Inr () \<and>
       registrationBody (siteShowing [badmintonRow]) = Inr () \<and>
       (\<exists>rows info cs. eventRows (listing (siteShowing [badmintonRow])) = Inr rows \<and>
          scanRows (toLowerCase (BookingParams.activity badmintonRequest))
            (trim (collapseWs (toLowerCase (BookingParams.time badmintonRequest))))
            (toLowerCase (BookingParams.location badmintonRequest))
            (truthy (preferWaitlist badmintonRequest)) 0 rows
          = Inr (Some info, cs))"
    using book_never_throws[of badmintonRequest "siteShowing [badmintonRow]" newAutomation]
    by (elim exE conjE) (rule that)
  have s: "success r'" using ok r'(1) by simp
  then have second: "initResult (siteShowing [badmintonRow]) = InitOk \<and>
       loginBody (siteShowing [badmintonRow]) = Inr True \<and>
       registrationBody (siteShowing [badmintonRow]) = Inr ()"
    using r'(2) by blast
  show ?thesis using i first l third r'(1) s second by blast
qed

text \<open>
  C6 as the specification states it fails for an error inside a stage: when the body of
  \<open>login\<close> throws "page crashed", the result of the attempt is "Login failed" with the
  error text "Could not login to Surrey booking system"; neither field carries the
  message of the error.
\<close>

theorem book_stage_error_message_counterexample:
  "loginBody ((siteShowing [badmintonRow])\<lparr>loginBody := Inl ''page crashed''\<rparr>)
     = Inl ''page crashed'' \<and>
   fst (book badmintonRequest
         ((siteShowing [badmintonRow])\<lparr>loginBody := Inl ''page crashed''\<rparr>) newAutomation)
     = Inr \<lparr>success = False, bookingId = None, activity = ''Drop In Badminton - Adult'',
            date = ''03-Feb-2026'', time = ''8:15 am'',
            location = ''Cloverdale Recreation Centre'', message = ''Login failed'',
            error = Some ''Could not login to Surrey booking system'', waitlisted = None\<rparr> \<and>
   ''Login failed'' \<noteq> ''page crashed'' \<and>
   Some ''Could not login to Surrey booking system'' \<noteq> Some ''page crashed''"
  by code_simp

subsection \<open>Claims on validation and on the exit code\<close>

text \<open>
  C8, as the code has it. A time label is accepted exactly when it consists of two digits,
  a colon, two digits, any amount of white space and \<open>am\<close> or \<open>pm\<close> in either letter case;
  a label with a one-digit hour is rejected. A request is free of errors exactly when its
  activity and location are not empty and its date and time have the accepted forms, and
  the \<open>book\<close> command answers a request with errors by exit code 1 without a result and
  without calling \<open>book\<close>, so before any browser is opened. The \<open>book-all\<close> command calls
  \<open>book\<close> for those of its enabled bookings that are free of errors, and for no other.
\<close>

theorem validation_before_session:
  "(isValidTimeFormat t \<longleftrightarrow>
      (\<exists>h1 h2 m1 m2 ws ap.
         t = [h1, h2, CHR '':'', m1, m2] @ ws @ ap \<and>
         isDigit h1 \<and> isDigit h2 \<and> isDigit m1 \<and> isDigit m2 \<and> list_all isWhitespace ws \<and>
         (toLowerCase ap = ''am'' \<or> toLowerCase ap = ''pm''))) \<and>
   (validateBookingParams p = [] \<longleftrightarrow>
      BookingParams.activity p \<noteq> [] \<and> isValidDateFormat (BookingParams.date p) \<and>
      isValidTimeFormat (BookingParams.time p) \<and> BookingParams.location p \<noteq> []) \<and>
   (validateBookingParams p \<noteq> [] \<longrightarrow>
      bookCommand p c s = \<lparr>exitCode = 1, results = [], attempts = []\<rparr>) \<and>
   length (attempts (bookAllCommand (Some cfg) siteAt)) =
     length (filter (\<lambda>b. validateBookingParams b = []) (enabledBookings cfg))"
  using isValidTimeFormat_iff[of t] validateBookingParams_empty[of p] bookCommand_invalid[of p c s]
    bookAllCommand_attempts[of cfg siteAt]
  by blast

text \<open>
  C8 at concrete inputs: "08:15 PM" is two digits, a colon, two digits, a space and
  \<open>PM\<close>, so it is accepted; the badminton request of the specification, whose time label
  is "8:15 am", has an error, and the \<open>book\<close> command exits with 1 without an attempt.
\<close>

theorem validation_before_session_witness:
  "isValidTimeFormat ''08:15 PM'' \<and>
   validateBookingParams badmintonRequest \<noteq> [] \<and>
   bookCommand badmintonRequest (Some twoBookings) (siteShowing [badmintonRow]) =
     \<lparr>exitCode = 1, results = [], attempts = []\<rparr>"
proof -
  note t = validation_before_session[of "''08:15 PM''" badmintonRequest "Some twoBookings"
      "siteShowing [badmintonRow]"]
  have "''08:15 PM'' = [CHR ''0'', CHR ''8'', CHR '':'', CHR ''1'', CHR ''5''] @ '' '' @ ''PM'' \<and>
        isDigit (CHR ''0'') \<and> isDigit (CHR ''8'') \<and> isDigit (CHR ''1'') \<and> isDigit (CHR ''5'') \<and>
        list_all isWhitespace '' '' \<and>
        (toLowerCase ''PM'' = ''am'' \<or> toLowerCase ''PM'' = ''pm'')"
    by code_simp
  then have a: "isValidTimeFormat ''08:15 PM''" using t by blast
  have "\<not> isValidTimeFormat (BookingParams.time badmintonRequest)" by code_simp
  then have b: "validateBookingParams badmintonRequest \<noteq> []" using t by blast
  then have "bookCommand badmintonRequest (Some twoBookings) (siteShowing [badmintonRow]) =
     \<lparr>exitCode = 1, results = [], attempts = []\<rparr>" using t by blast
  then show ?thesis using a b by blast
qed

text \<open>
  C8 as the specification states it fails on the one-digit hour it names: "8:15 am" is
  not accepted, and a request with that time label is answered with the error of an
  invalid time format.
\<close>

theorem isValidTimeFormat_one_digit_hour_counterexample:
  "\<not> isValidTimeFormat ''8:15 am'' \<and>
   validateBookingParams badmintonRequest =
     [''Invalid time format: 8:15 am. Expected: HH:MM am/pm (e.g., 08:15 am)'']"
  by code_simp

text \<open>
  C9, as the code has it. The \<open>book\<close> command exits with 0 exactly when the configuration
  loads and the acquisition it asks for succeeds: the fields of the request are valid and
  \<open>book\<close> returns a result with \<open>success\<close> true; otherwise it exits with 1. The \<open>book-all\<close>
  command, its configuration loaded, exits with 0 exactly when the acquisition of every
  enabled booking succeeds, each against the site as it is at its turn, and with 1
  otherwise; it records one result for each enabled booking, and it exits with 1 when the
  configuration cannot be loaded. The \<open>run\<close> command of the scheduler exits with 0 whenever
  the rule id is known and the configuration loads, whatever the outcome of its
  acquisition, and with 1 otherwise.
\<close>

theorem exit_code_zero_iff_all_succeeded:
  "(exitCode (bookCommand p c s) = 0 \<longleftrightarrow> c \<noteq> None \<and> acquired s p) \<and>
   (exitCode (bookCommand p c s) = 0 \<longleftrightarrow>
      (\<exists>r. results (bookCommand p c s) = [r] \<and> success r)) \<and>
   (exitCode (bookCommand p c s) = 0 \<or> exitCode (bookCommand p c s) = 1) \<and>
   (exitCode (bookAllCommand (Some cfg) siteAt) = 0 \<longleftrightarrow>
      list_all (\<lambda>(i, b). acquired (siteAt i) b) (enumerate 0 (enabledBookings cfg))) \<and>
   (exitCode (bookAllCommand (Some cfg) siteAt) = 0 \<longleftrightarrow>
      list_all success (results (bookAllCommand (Some cfg) siteAt))) \<and>
   length (results (bookAllCommand (Some cfg) siteAt)) = length (enabledBookings cfg) \<and>
   (exitCode (bookAllCommand (Some cfg) siteAt) = 0 \<or>
    exitCode (bookAllCommand (Some cfg) siteAt) = 1) \<and>
   exitCode (bookAllCommand None siteAt) = 1 \<and>
   fst (runNow fmt bwp sid now c s) =
     (if find (\<lambda>sch. ScheduleConfig.id sch = sid) SCHEDULES = None \<or> c = None then 1 else 0) \<and>
   (\<forall>sch r. find (\<lambda>sch. ScheduleConfig.id sch = sid) SCHEDULES = Some sch \<and> c \<noteq> None \<and>
        bwp \<lparr>id = None, enabled = None, activity = ScheduleConfig.activity sch,
              date = fmt (getNextTargetDate sch now), time = ScheduleConfig.time sch,
              location = ScheduleConfig.location sch, preferWaitlist = Some False\<rparr>
          (releaseHour sch) (releaseMinute sch) = Inr r \<longrightarrow>
        runNow fmt bwp sid now c s = (0, Some r))"
proof -
  have n: "exitCode (bookAllCommand None siteAt) = 1" by (simp add: bookAllCommand_def)
  have lg: "\<forall>sch r. find (\<lambda>sch. ScheduleConfig.id sch = sid) SCHEDULES = Some sch \<and> c \<noteq> None \<and>
        bwp \<lparr>id = None, enabled = None, activity = ScheduleConfig.activity sch,
              date = fmt (getNextTargetDate sch now), time = ScheduleConfig.time sch,
              location = ScheduleConfig.location sch, preferWaitlist = Some False\<rparr>
          (releaseHour sch) (releaseMinute sch) = Inr r \<longrightarrow>
        runNow fmt bwp sid now c s = (0, Some r)"
    using runNow_logged[of sid _ c _ bwp fmt now _ s] by blast
  show ?thesis
    using bookCommand_acquired[of p c s] bookCommand_exit[of p c s]
      bookAllCommand_acquired[of cfg siteAt] bookAllCommand_exit[of cfg siteAt] n
      runNow_exit[of fmt bwp sid now c s] lg
    by blast
qed

text \<open>
  C9 at concrete runs. The basketball request against a listing with a spot left is
  acquired, and the \<open>book\<close> command exits with 0. In the batch of the basketball and the
  badminton request the second has an invalid time label and is not acquired, and the
  \<open>book-all\<close> command exits with 1. The \<open>run\<close> command for the Friday rule, its attempt
  returning the failure "Slot not found", logs that result and exits with 0.
\<close>

theorem exit_code_zero_iff_all_succeeded_witness:
  "acquired (siteShowing [basketballOpenRow]) basketballRequest \<and>
   exitCode (bookCommand basketballRequest (Some twoBookings) (siteShowing [basketballOpenRow])) = 0 \<and>
   \<not> list_all (\<lambda>(i, b). acquired (siteShowing [basketballOpenRow]) b)
        (enumerate 0 (enabledBookings twoBookings)) \<and>
   exitCode (bookAllCommand (Some twoBookings) (\<lambda>i. siteShowing [basketballOpenRow])) = 1 \<and>
   find (\<lambda>sch. ScheduleConfig.id sch = ''friday-monday-cloverdale'') SCHEDULES
     = Some (SCHEDULES ! 0) \<and>
   runNow formatSecondFebruary phasesNotFound ''friday-monday-cloverdale'' 1769797680000
       (Some twoBookings) (siteShowing [basketballOpenRow])
     = (0, Some \<lparr>success = False, bookingId = None, activity = ''Drop In Badminton - Adult'',
                  date = ''02-Feb-2026'', time = ''6:30 am'',
                  location = ''Cloverdale Recreation Centre'', message = ''Slot not found'',
                  error = None, waitlisted = None\<rparr>)"
proof -
  note t = exit_code_zero_iff_all_succeeded[of basketballRequest "Some twoBookings"
      "siteShowing [basketballOpenRow]" twoBookings "\<lambda>i. siteShowing [basketballOpenRow]"
      formatSecondFebruary phasesNotFound "''friday-monday-cloverdale''" 1769797680000]
  have acq: "acquired (siteShowing [basketballOpenRow]) basketballRequest" by code_simp
  then have a: "exitCode (bookCommand basketballRequest (Some twoBookings)
                  (siteShowing [basketballOpenRow])) = 0"
    using t by blast
  have nacq: "\<not> list_all (\<lambda>(i, b). acquired (siteShowing [basketballOpenRow]) b)
        (enumerate 0 (enabledBookings twoBookings))"
    by code_simp
  then have "exitCode (bookAllCommand (Some twoBookings)
                  (\<lambda>i. siteShowing [basketballOpenRow])) \<noteq> 0"
    using t by blast
  then have b: "exitCode (bookAllCommand (Some twoBookings)
                  (\<lambda>i. siteShowing [basketballOpenRow])) = 1"
    using t by blast
  have f: "find (\<lambda>sch. ScheduleConfig.id sch = ''friday-monday-cloverdale'') SCHEDULES
             = Some (SCHEDULES ! 0)"
    by (simp add: SCHEDULES_def)
  have w: "phasesNotFound
             \<lparr>id = None, enabled = None, activity = ScheduleConfig.activity (SCHEDULES ! 0),
              date = formatSecondFebruary (getNextTargetDate (SCHEDULES ! 0) 1769797680000),
              time = ScheduleConfig.time (SCHEDULES ! 0),
              location = ScheduleConfig.location (SCHEDULES ! 0), preferWaitlist = Some False\<rparr>
          (releaseHour (SCHEDULES ! 0)) (releaseMinute (SCHEDULES ! 0))
        = Inr \<lparr>success = False, bookingId = None, activity = ''Drop In Badminton - Adult'',
                  date = ''02-Feb-2026'', time = ''6:30 am'',
                  location = ''Cloverdale Recreation Centre'', message = ''Slot not found'',
                  error = None, waitlisted = None\<rparr>"
    by (simp add: SCHEDULES_def initialResult_def phasesNotFound_def formatSecondFebruary_def)
  have some: "Some twoBookings \<noteq> None" by simp
  have r: "runNow formatSecondFebruary phasesNotFound ''friday-monday-cloverdale'' 1769797680000
             (Some twoBookings) (siteShowing [basketballOpenRow])
     = (0, Some \<lparr>success = False, bookingId = None, activity = ''Drop In Badminton - Adult'',
                  date = ''02-Feb-2026'', time = ''6:30 am'',
                  location = ''Cloverdale Recreation Centre'', message = ''Slot not found'',
                  error = None, waitlisted = None\<rparr>)"
    using t f w some by blast
  show ?thesis using acq a nacq b f r by blast
qed

text \<open>
  C9 as the specification states it fails for the \<open>run\<close> command of the scheduler: for the
  Friday rule on Friday 30 January 2026, with an attempt that returns the failure "Slot
  not found", the result logged has \<open>success\<close> false and the process exits with 0.
\<close>

theorem run_exit_code_counterexample:
  "runNow formatSecondFebruary phasesNotFound ''friday-monday-cloverdale'' 1769797680000
       (Some twoBookings) (siteShowing [basketballOpenRow])
     = (0, Some \<lparr>success = False, bookingId = None, activity = ''Drop In Badminton - Adult'',
                  date = ''02-Feb-2026'', time = ''6:30 am'',
                  location = ''Cloverdale Recreation Centre'', message = ''Slot not found'',
                  error = None, waitlisted = None\<rparr>)"
  by code_simp

end
